theory Spec2Isabelle
  imports Main "HOL-Library.AList"
begin

section \<open>Content script (chrome-extension/content.js)\<close>

text \<open>
  The content script is one closure whose variables are the state of a page context.
  Each handler is modelled as a function from the state before the call to the state
  after it. Timestamps (\<open>performance.now()\<close>, \<open>Date.now()\<close>) are readings of the
  environment and are passed in; they are modelled as integers (milliseconds).
  Messages handed to \<open>chrome.runtime.sendMessage\<close> are appended to \<open>outbox\<close>.
\<close>

subsection \<open>Configuration\<close>

definition MOUSE_SAMPLE_INTERVAL_MS :: int where "MOUSE_SAMPLE_INTERVAL_MS = 15"
definition FLUSH_INTERVAL_MS :: int where "FLUSH_INTERVAL_MS = 5000"
definition IDLE_THRESHOLD_MS :: int where "IDLE_THRESHOLD_MS = 3000"
definition SCROLL_THROTTLE_MS :: int where "SCROLL_THROTTLE_MS = 50"

definition LOGGABLE_KEYS :: "string list" where
  "LOGGABLE_KEYS =
    [''Backspace'', ''Delete'', ''Tab'', ''Enter'', ''Escape'',
     ''ArrowUp'', ''ArrowDown'', ''ArrowLeft'', ''ArrowRight'',
     ''Home'', ''End'', ''PageUp'', ''PageDown'',
     ''Insert'', ''CapsLock'', ''NumLock'', ''ScrollLock'',
     ''ContextMenu'', ''PrintScreen'', ''Pause'',
     ''F1'', ''F2'', ''F3'', ''F4'', ''F5'', ''F6'',
     ''F7'', ''F8'', ''F9'', ''F10'', ''F11'', ''F12'']"

subsection \<open>Records of the four event kinds\<close>

record mouseRecord =
  mr_x :: int
  mr_y :: int
  mr_pageX :: int
  mr_pageY :: int
  mr_t :: int

text \<open>The \<open>className\<close> of an element: absent, a string, or (for an SVG element) an
  object with the class string as its base value.\<close>

datatype classValue = ClassNull | ClassString string | ClassObject string

record targetInfo =
  ti_tag :: "string option"
  ti_id :: "string option"
  ti_classes :: classValue
  ti_name :: "string option"
  ti_type :: "string option"
  ti_text :: string

record clickRecord =
  cr_t :: int
  cr_x :: int
  cr_y :: int
  cr_button :: string
  cr_target :: "targetInfo option"
  cr_dt_since_last :: "int option"

text \<open>
  The delta of a key record: \<open>null\<close>, a number of milliseconds, or \<open>NaN\<close> (the
  result of subtracting something that is not a number). A keyup record has no
  \<open>dt_since_last\<close> property: \<open>kr_dt_since_last\<close> is \<open>DeltaNull\<close> for it, as it is
  for a keydown whose delta is \<open>null\<close>.
\<close>

datatype delta = DeltaNull | DeltaMs int | DeltaNaN

record keyRecord =
  kr_field :: string
  kr_type :: string
  kr_t :: int
  kr_dt_since_last :: delta
  kr_key :: "string option"

record scrollRecord =
  sr_t :: int
  sr_scrollX :: int
  sr_scrollY :: int
  sr_dx :: int
  sr_dy :: int
  sr_dt_since_last :: "int option"

subsection \<open>Messages\<close>

record telemetry =
  m_sessionId :: "string option"
  m_segmentId :: int
  m_tabId :: "int option"
  m_url :: string
  m_hostname :: string
  m_timestamp :: int
  m_isSegmentEnd :: bool
  m_mouse :: "mouseRecord list"
  m_clicks :: "clickRecord list"
  m_keystrokes :: "keyRecord list"
  m_scroll :: "scrollRecord list"

record pageMetaMsg =
  pm_sessionId :: "string option"
  pm_url :: string
  pm_hostname :: string
  pm_clientHints :: "string option"
  pm_network :: "string option"
  pm_timestamp :: int

record contentStatus =
  st_recording :: bool
  st_isIdle :: bool
  st_segmentId :: int
  st_mouse :: nat
  st_clicks :: nat
  st_keystrokes :: nat
  st_scroll :: nat

datatype message =
    Telemetry telemetry
  | PageMeta pageMetaMsg
  | ContentStatus contentStatus
  | ContentReady

subsection \<open>Environment and DOM events\<close>

text \<open>
  \<open>RuntimeOk\<close>: \<open>chrome.runtime?.id\<close> is truthy and \<open>sendMessage\<close> returns;
  \<open>RuntimeNoId\<close>: \<open>chrome.runtime?.id\<close> is falsy, nothing is sent and nothing is thrown;
  \<open>RuntimeThrows\<close>: the \<open>try\<close> block throws (extension context invalidated).
\<close>

datatype runtimeStatus = RuntimeOk | RuntimeNoId | RuntimeThrows

text \<open>
  One reading of the environment per handler call. \<open>perfNowTouch\<close> is the value
  \<open>performance.now()\<close> returns inside \<open>touchInteraction\<close>, \<open>perfNow\<close> the value it
  returns in the handler itself.
\<close>

record env =
  perfNowTouch :: int
  perfNow :: int
  dateNow :: int
  href :: string
  hostname :: string
  scrollX :: int
  scrollY :: int
  hidden :: bool
  runtime :: runtimeStatus
  clientHints :: string
  networkMeta :: string

text \<open>A DOM property that may be \<open>undefined\<close> is an option; \<open>orNull\<close> is \<open>x || null\<close>
  on such a string, \<open>orElse\<close> is \<open>x || d\<close>.\<close>

definition orNull :: "string option \<Rightarrow> string option" where
  "orNull x = (case x of None \<Rightarrow> None | Some s \<Rightarrow> if s = [] then None else Some s)"

definition orElse :: "string option \<Rightarrow> string \<Rightarrow> string" where
  "orElse x d = (case orNull x of None \<Rightarrow> d | Some s \<Rightarrow> s)"

record element =
  tagName :: "string option"
  el_id :: "string option"
  className :: classValue
  el_name :: "string option"
  el_type :: "string option"
  innerText :: "string option"
  isContentEditable :: bool

record mouseEvent =
  me_clientX :: int
  me_clientY :: int
  me_pageX :: int
  me_pageY :: int

record clickEvent =
  ce_clientX :: int
  ce_clientY :: int
  ce_button :: int
  ce_target :: "element option"

record keyEvent =
  ke_key :: string
  ke_target :: "element option"

subsection \<open>State\<close>

text \<open>
  The three interval ids are modelled by whether an interval is registered under the
  variable. \<open>listening\<close> records whether the capture listeners are attached
  (\<open>addEventListener\<close> in \<open>startRecording\<close>, \<open>removeEventListener\<close> in
  \<open>stopRecording\<close>). \<open>lastKeyTimestampByField\<close> holds the own properties of the
  object, as an association list from field ids to timestamps.
\<close>

record page =
  recording :: bool
  sessionId :: "string option"
  segmentId :: int
  segmentStartTime :: "int option"
  mouseBuffer :: "mouseRecord list"
  clickBuffer :: "clickRecord list"
  keystrokeBuffer :: "keyRecord list"
  scrollBuffer :: "scrollRecord list"
  lastMouseEvent :: "mouseEvent option"
  lastInteractionTime :: int
  lastClickTimestamp :: "int option"
  lastKeyTimestampByField :: "(string \<times> int) list"
  lastScrollTimestamp :: "int option"
  lastScrollX :: int
  lastScrollY :: int
  mouseIntervalId :: bool
  flushIntervalId :: bool
  idleCheckIntervalId :: bool
  isIdle :: bool
  pageVisible :: bool
  lastFlushTime :: int
  listening :: bool
  outbox :: "message list"

text \<open>The state when the script has been injected and has announced itself.\<close>

definition initialPage :: "env \<Rightarrow> page" where
  "initialPage e =
    \<lparr> recording = False, sessionId = None, segmentId = 0, segmentStartTime = None,
      mouseBuffer = [], clickBuffer = [], keystrokeBuffer = [], scrollBuffer = [],
      lastMouseEvent = None, lastInteractionTime = perfNow e,
      lastClickTimestamp = None, lastKeyTimestampByField = [],
      lastScrollTimestamp = None, lastScrollX = scrollX e, lastScrollY = scrollY e,
      mouseIntervalId = False, flushIntervalId = False, idleCheckIntervalId = False,
      isIdle = False, pageVisible = True, lastFlushTime = dateNow e,
      listening = False,
      outbox = (case runtime e of RuntimeOk \<Rightarrow> [ContentReady] | _ \<Rightarrow> []) \<rparr>"

text \<open>\<open>!sessionId\<close>: \<open>null\<close> and the empty string are falsy.\<close>

definition truthySession :: "string option \<Rightarrow> bool" where
  "truthySession sid = (case sid of None \<Rightarrow> False | Some s \<Rightarrow> s \<noteq> [])"

subsection \<open>Segment management\<close>

definition startNewSegment :: "env \<Rightarrow> page \<Rightarrow> page" where
  "startNewSegment e s =
    s\<lparr> segmentId := segmentId s + 1,
       segmentStartTime := Some (dateNow e),
       mouseBuffer := [], clickBuffer := [], keystrokeBuffer := [], scrollBuffer := [],
       lastClickTimestamp := None,
       lastKeyTimestampByField := [],
       lastScrollTimestamp := None,
       mouseIntervalId := True \<rparr>"

definition touchInteraction :: "env \<Rightarrow> page \<Rightarrow> page" where
  "touchInteraction e s =
    (let s1 = s\<lparr> lastInteractionTime := perfNowTouch e \<rparr>
     in if isIdle s1 then startNewSegment e (s1\<lparr> isIdle := False \<rparr>) else s1)"

subsection \<open>Flush and stop\<close>

text \<open>
  \<open>flushBuffers\<close> calls \<open>stopRecording\<close> when delivery throws, and \<open>stopRecording\<close> calls
  \<open>flushBuffers(true)\<close> after it has set \<open>recording = false\<close>; the two are defined
  together. The payload takes the whole of each buffer and leaves it empty
  (\<open>splice(0)\<close>).
\<close>

definition buildPayload :: "env \<Rightarrow> bool \<Rightarrow> page \<Rightarrow> telemetry" where
  "buildPayload e isSegmentEnd s =
    \<lparr> m_sessionId = sessionId s, m_segmentId = segmentId s, m_tabId = None,
      m_url = href e, m_hostname = hostname e, m_timestamp = dateNow e,
      m_isSegmentEnd = isSegmentEnd,
      m_mouse = mouseBuffer s, m_clicks = clickBuffer s,
      m_keystrokes = keystrokeBuffer s, m_scroll = scrollBuffer s \<rparr>"

definition spliceAll :: "page \<Rightarrow> page" where
  "spliceAll s =
    s\<lparr> mouseBuffer := [], clickBuffer := [], keystrokeBuffer := [], scrollBuffer := [] \<rparr>"

definition hasData :: "page \<Rightarrow> bool" where
  "hasData s \<longleftrightarrow>
     length (mouseBuffer s) \<noteq> 0 \<or> length (clickBuffer s) \<noteq> 0 \<or>
     length (keystrokeBuffer s) \<noteq> 0 \<or> length (scrollBuffer s) \<noteq> 0"

definition clearTimers :: "page \<Rightarrow> page" where
  "clearTimers s =
    s\<lparr> mouseIntervalId := False, flushIntervalId := False, idleCheckIntervalId := False \<rparr>"

function flushBuffers :: "env \<Rightarrow> bool \<Rightarrow> page \<Rightarrow> page"
  and stopRecording :: "env \<Rightarrow> page \<Rightarrow> page" where
  "flushBuffers e isSegmentEnd s =
    (if \<not> recording s \<or> \<not> truthySession (sessionId s) then s
     else if \<not> hasData s \<and> \<not> isSegmentEnd then s
     else (case runtime e of
             RuntimeOk \<Rightarrow>
               (spliceAll s)\<lparr> outbox := outbox s @ [Telemetry (buildPayload e isSegmentEnd s)] \<rparr>
           | RuntimeNoId \<Rightarrow> spliceAll s
           | RuntimeThrows \<Rightarrow> stopRecording e (spliceAll s)))"
| "stopRecording e s =
    (if \<not> recording s then s
     else clearTimers ((flushBuffers e True (s\<lparr> recording := False \<rparr>))\<lparr> listening := False \<rparr>))"
  by pat_completeness auto

termination
  by (relation "measure (\<lambda>x. case x of
        Inl (e, b, s) \<Rightarrow> (if recording s then 2 else 0)
      | Inr (e, s) \<Rightarrow> (if recording s then 1 else 0))")
     (auto simp: spliceAll_def)

declare flushBuffers.simps [simp del] stopRecording.simps [simp del]

subsection \<open>Mouse tracking\<close>

definition handleMouseMove :: "env \<Rightarrow> mouseEvent \<Rightarrow> page \<Rightarrow> page" where
  "handleMouseMove e ev s = touchInteraction e (s\<lparr> lastMouseEvent := Some ev \<rparr>)"

definition sampleMousePosition :: "env \<Rightarrow> page \<Rightarrow> page" where
  "sampleMousePosition e s =
    (case lastMouseEvent s of
       None \<Rightarrow> s
     | Some ev \<Rightarrow>
         if isIdle s \<or> \<not> recording s then s
         else s\<lparr> mouseBuffer := mouseBuffer s @
                [\<lparr> mr_x = me_clientX ev, mr_y = me_clientY ev,
                   mr_pageX = me_pageX ev, mr_pageY = me_pageY ev, mr_t = perfNow e \<rparr>] \<rparr>)"

subsection \<open>Click tracking\<close>

definition buttonName :: "int \<Rightarrow> string" where
  "buttonName b =
    (if b = 0 then ''left'' else if b = 1 then ''middle'' else if b = 2 then ''right''
     else ''unknown'')"

text \<open>\<open>className || null\<close>: an empty string gives \<open>null\<close>, an object is kept.\<close>

definition classOrNull :: "classValue \<Rightarrow> classValue" where
  "classOrNull c = (case c of ClassString s \<Rightarrow> if s = [] then ClassNull else ClassString s
                            | other \<Rightarrow> other)"

definition targetInfoOf :: "element \<Rightarrow> targetInfo" where
  "targetInfoOf t =
    \<lparr> ti_tag = tagName t, ti_id = orNull (el_id t), ti_classes = classOrNull (className t),
      ti_name = orNull (el_name t), ti_type = orNull (el_type t),
      ti_text = take 64 (orElse (innerText t) []) \<rparr>"

definition handleClick :: "env \<Rightarrow> clickEvent \<Rightarrow> page \<Rightarrow> page" where
  "handleClick e ev s =
    (if \<not> recording s then s
     else let s1 = touchInteraction e s in
       if isIdle s1 then s1
       else let now = perfNow e;
                dtSinceLast = (case lastClickTimestamp s1 of
                                 Some l \<Rightarrow> Some (now - l) | None \<Rightarrow> None);
                s2 = s1\<lparr> lastClickTimestamp := Some now \<rparr>
            in s2\<lparr> clickBuffer := clickBuffer s2 @
                 [\<lparr> cr_t = now, cr_x = ce_clientX ev, cr_y = ce_clientY ev,
                    cr_button = buttonName (ce_button ev),
                    cr_target = map_option targetInfoOf (ce_target ev),
                    cr_dt_since_last = dtSinceLast \<rparr>] \<rparr>)"

subsection \<open>Keystroke tracking\<close>

definition lowerChar :: "char \<Rightarrow> char" where
  "lowerChar c =
    (let n = (of_char c :: nat) in if 65 \<le> n \<and> n \<le> 90 then char_of (n + 32) else c)"

definition toLowerCase :: "string \<Rightarrow> string" where
  "toLowerCase s = map lowerChar s"

definition getFieldId :: "element option \<Rightarrow> string" where
  "getFieldId target =
    (case target of
       None \<Rightarrow> ''body''
     | Some t \<Rightarrow>
         let tag = orElse (tagName t) [] in
         if tag = ''INPUT'' \<or> tag = ''TEXTAREA'' \<or> tag = ''SELECT''
         then orElse (el_name t) (orElse (el_id t) (orElse (el_type t) (toLowerCase tag)))
         else if isContentEditable t then orElse (el_id t) ''contenteditable''
         else orElse (el_id t) (orElse (Some (toLowerCase tag)) ''body''))"

definition loggableKey :: "string \<Rightarrow> string option" where
  "loggableKey k = (if k \<in> set LOGGABLE_KEYS then Some k else None)"

text \<open>
  \<open>lastKeyTimestampByField\<close> is a plain object (\<open>{}\<close>), so reading
  \<open>lastKeyTimestampByField[fieldId]\<close> also finds what every object inherits from
  \<open>Object.prototype\<close>: for a field id that is one of these names and has no own
  property yet, the value read is a function or an object, not \<open>null\<close>, and
  \<open>now - last\<close> is \<open>NaN\<close>. Assigning a number to \<open>__proto__\<close> does nothing, so
  that name never becomes an own property.
\<close>

definition objectPrototypeProperties :: "string list" where
  "objectPrototypeProperties =
    [''constructor'', ''__defineGetter__'', ''__defineSetter__'', ''hasOwnProperty'',
     ''__lookupGetter__'', ''__lookupSetter__'', ''isPrototypeOf'',
     ''propertyIsEnumerable'', ''toString'', ''valueOf'', ''__proto__'',
     ''toLocaleString'']"

datatype fieldLookup = Undefined | Timestamp int | Inherited

definition readField :: "(string \<times> int) list \<Rightarrow> string \<Rightarrow> fieldLookup" where
  "readField obj fieldId =
    (case map_of obj fieldId of
       Some l \<Rightarrow> Timestamp l
     | None \<Rightarrow> if fieldId \<in> set objectPrototypeProperties then Inherited else Undefined)"

definition writeField :: "string \<Rightarrow> int \<Rightarrow> (string \<times> int) list \<Rightarrow> (string \<times> int) list" where
  "writeField fieldId now obj =
    (if fieldId = ''__proto__'' then obj else AList.update fieldId now obj)"

definition handleKeyDown :: "env \<Rightarrow> keyEvent \<Rightarrow> page \<Rightarrow> page" where
  "handleKeyDown e ev s =
    (if \<not> recording s then s
     else let s1 = touchInteraction e s in
       if isIdle s1 then s1
       else let now = perfNow e;
                fieldId = getFieldId (ke_target ev);
                dt = (case readField (lastKeyTimestampByField s1) fieldId of
                        Timestamp l \<Rightarrow> DeltaMs (now - l)
                      | Inherited \<Rightarrow> DeltaNaN
                      | Undefined \<Rightarrow> DeltaNull);
                s2 = s1\<lparr> lastKeyTimestampByField :=
                          writeField fieldId now (lastKeyTimestampByField s1) \<rparr>
            in s2\<lparr> keystrokeBuffer := keystrokeBuffer s2 @
                 [\<lparr> kr_field = fieldId, kr_type = ''down'', kr_t = now,
                    kr_dt_since_last = dt, kr_key = loggableKey (ke_key ev) \<rparr>] \<rparr>)"

definition handleKeyUp :: "env \<Rightarrow> keyEvent \<Rightarrow> page \<Rightarrow> page" where
  "handleKeyUp e ev s =
    (if \<not> recording s then s
     else let s1 = touchInteraction e s in
       if isIdle s1 then s1
       else let now = perfNow e;
                fieldId = getFieldId (ke_target ev)
            in s1\<lparr> keystrokeBuffer := keystrokeBuffer s1 @
                 [\<lparr> kr_field = fieldId, kr_type = ''up'', kr_t = now,
                    kr_dt_since_last = DeltaNull, kr_key = loggableKey (ke_key ev) \<rparr>] \<rparr>)"

subsection \<open>Scroll tracking\<close>

text \<open>The throttle test \<open>lastScrollTimestamp && \<dots>\<close> is on the truthiness of the
  timestamp: \<open>null\<close> and \<open>0\<close> both skip the throttle.\<close>

definition handleScroll :: "env \<Rightarrow> page \<Rightarrow> page" where
  "handleScroll e s =
    (if \<not> recording s then s
     else let s1 = touchInteraction e s in
       if isIdle s1 then s1
       else let now = perfNow e in
         if (case lastScrollTimestamp s1 of
               None \<Rightarrow> False
             | Some l \<Rightarrow> l \<noteq> 0 \<and> now - l < SCROLL_THROTTLE_MS) then s1
         else let sx = scrollX e; sy = scrollY e;
                  dx = sx - lastScrollX s1; dy = sy - lastScrollY s1;
                  dtSinceLast = (case lastScrollTimestamp s1 of
                                   Some l \<Rightarrow> Some (now - l) | None \<Rightarrow> None);
                  s2 = s1\<lparr> lastScrollX := sx, lastScrollY := sy,
                            lastScrollTimestamp := Some now \<rparr>
              in s2\<lparr> scrollBuffer := scrollBuffer s2 @
                   [\<lparr> sr_t = now, sr_scrollX = sx, sr_scrollY = sy, sr_dx = dx, sr_dy = dy,
                      sr_dt_since_last = dtSinceLast \<rparr>] \<rparr>)"

subsection \<open>Idle detection, visibility, periodic flush\<close>

definition endCurrentSegment :: "env \<Rightarrow> page \<Rightarrow> page" where
  "endCurrentSegment e s = (flushBuffers e True s)\<lparr> mouseIntervalId := False \<rparr>"

definition handleVisibilityChange :: "env \<Rightarrow> page \<Rightarrow> page" where
  "handleVisibilityChange e s =
    (if hidden e then
       (let s1 = s\<lparr> pageVisible := False \<rparr>
        in if recording s1 \<and> \<not> isIdle s1 then endCurrentSegment e (s1\<lparr> isIdle := True \<rparr>)
           else s1)
     else s\<lparr> pageVisible := True \<rparr>)"

definition checkIdle :: "env \<Rightarrow> page \<Rightarrow> page" where
  "checkIdle e s =
    (if \<not> recording s \<or> isIdle s then s
     else let elapsed = perfNow e - lastInteractionTime s in
       if elapsed \<ge> IDLE_THRESHOLD_MS then endCurrentSegment e (s\<lparr> isIdle := True \<rparr>)
       else s)"

definition periodicFlush :: "env \<Rightarrow> page \<Rightarrow> page" where
  "periodicFlush e s =
    (let now = dateNow e in
     if now - lastFlushTime s \<ge> FLUSH_INTERVAL_MS
     then flushBuffers e False (s\<lparr> lastFlushTime := now \<rparr>)
     else s)"

subsection \<open>Start of recording and the message handler\<close>

definition startRecording :: "env \<Rightarrow> string option \<Rightarrow> page \<Rightarrow> page" where
  "startRecording e sid s =
    (if recording s then s
     else let s1 = startNewSegment e
                     (s\<lparr> sessionId := sid, recording := True, isIdle := False, segmentId := 0 \<rparr>);
              s2 = (case runtime e of
                      RuntimeOk \<Rightarrow>
                        s1\<lparr> outbox := outbox s1 @
                          [PageMeta \<lparr> pm_sessionId = sessionId s1, pm_url = href e,
                                     pm_hostname = hostname e,
                                     pm_clientHints = Some (clientHints e),
                                     pm_network = Some (networkMeta e),
                                     pm_timestamp = dateNow e \<rparr>] \<rparr>
                    | _ \<Rightarrow> s1)
          in s2\<lparr> listening := True, mouseIntervalId := True, flushIntervalId := True,
                 idleCheckIntervalId := True \<rparr>)"

text \<open>The reply to \<open>get_status\<close> calls \<open>sendMessage\<close> without testing
  \<open>chrome.runtime?.id\<close>; without a runtime the call throws and the \<open>catch\<close>
  ignores it.\<close>

definition getStatus :: "env \<Rightarrow> page \<Rightarrow> page" where
  "getStatus e s =
    (case runtime e of
       RuntimeOk \<Rightarrow> s\<lparr> outbox := outbox s @
            [ContentStatus \<lparr> st_recording = recording s, st_isIdle = isIdle s,
                             st_segmentId = segmentId s,
                             st_mouse = length (mouseBuffer s),
                             st_clicks = length (clickBuffer s),
                             st_keystrokes = length (keystrokeBuffer s),
                             st_scroll = length (scrollBuffer s) \<rparr>] \<rparr>
     | _ \<Rightarrow> s)"

text \<open>
  What can happen to a page context: a message from the background, a DOM event, or
  the callback of one of the three intervals. DOM events reach their handler only
  while the listeners are attached; the flush and idle intervals fire only while they
  are registered. \<open>startRecording\<close> registers a sampling interval in
  \<open>startNewSegment\<close> and overwrites its id with a second one, so a sampling interval
  stays registered after \<open>stopRecording\<close>: \<open>SampleTick\<close> always reaches
  \<open>sampleMousePosition\<close>.
\<close>

datatype pageEvent =
    StartRecordingMsg "string option"
  | StopRecordingMsg
  | GetStatusMsg
  | MouseMove mouseEvent
  | Click clickEvent
  | KeyDown keyEvent
  | KeyUp keyEvent
  | Scroll
  | VisibilityChange
  | SampleTick
  | FlushTick
  | IdleTick

fun dispatch :: "env \<times> pageEvent \<Rightarrow> page \<Rightarrow> page" where
  "dispatch (e, StartRecordingMsg sid) s = startRecording e sid s"
| "dispatch (e, StopRecordingMsg) s = stopRecording e s"
| "dispatch (e, GetStatusMsg) s = getStatus e s"
| "dispatch (e, MouseMove ev) s = (if listening s then handleMouseMove e ev s else s)"
| "dispatch (e, Click ev) s = (if listening s then handleClick e ev s else s)"
| "dispatch (e, KeyDown ev) s = (if listening s then handleKeyDown e ev s else s)"
| "dispatch (e, KeyUp ev) s = (if listening s then handleKeyUp e ev s else s)"
| "dispatch (e, Scroll) s = (if listening s then handleScroll e s else s)"
| "dispatch (e, VisibilityChange) s = (if listening s then handleVisibilityChange e s else s)"
| "dispatch (e, SampleTick) s = sampleMousePosition e s"
| "dispatch (e, FlushTick) s = (if flushIntervalId s then periodicFlush e s else s)"
| "dispatch (e, IdleTick) s = (if idleCheckIntervalId s then checkIdle e s else s)"

definition runPage :: "(env \<times> pageEvent) list \<Rightarrow> page \<Rightarrow> page" where
  "runPage evs s = fold dispatch evs s"

section \<open>Background service worker (chrome-extension/background.js)\<close>

subsection \<open>Stored data\<close>

record counters =
  c_mouse :: nat
  c_clicks :: nat
  c_keystrokes :: nat
  c_scroll :: nat

definition zeroCounters :: counters where
  "zeroCounters = \<lparr> c_mouse = 0, c_clicks = 0, c_keystrokes = 0, c_scroll = 0 \<rparr>"

record segment =
  seg_segmentId :: int
  seg_tabId :: "int option"
  seg_url :: string
  seg_hostname :: string
  seg_timestamp :: int
  seg_isSegmentEnd :: bool
  seg_mouse :: "mouseRecord list"
  seg_clicks :: "clickRecord list"
  seg_keystrokes :: "keyRecord list"
  seg_scroll :: "scrollRecord list"

record storedMeta =
  sm_url :: string
  sm_hostname :: string
  sm_clientHints :: "string option"
  sm_network :: "string option"
  sm_timestamp :: int

record session =
  startTime :: int
  segments :: "segment list"
  pageMeta :: "storedMeta list"

text \<open>The \<open>sessions\<close> object of \<open>chrome.storage.local\<close>: session ids to sessions, in
  insertion order.\<close>

type_synonym sessions = "(string \<times> session) list"

text \<open>The mirror kept in \<open>chrome.storage.session\<close>; a key that was never set is
  \<open>None\<close>.\<close>

record mirror =
  ss_sessionId :: "string option"
  ss_recording :: "bool option"
  ss_totalEvents :: "counters option"
  ss_segmentCount :: "nat option"

subsection \<open>Write operations and the state of the worker\<close>

text \<open>
  The three closures handed to \<open>enqueueWrite\<close>: the one of \<open>startNewSession\<close>, the one
  of \<open>storeTelemetry\<close> (it captures the segment) and the one of \<open>storePageMeta\<close> (it
  captures the message's fields). All three read the variable \<open>sessionId\<close> when they
  run, not when they are enqueued.
\<close>

datatype writeOp = InitSession | PushSegment segment | PushPageMeta storedMeta

text \<open>
  \<open>writeQueue\<close> holds the operations chained on the promise that have not started;
  \<open>inflight\<close> is the operation that has read \<open>sessions\<close> and has not finished, with
  what it read. \<open>localSessions\<close> is the key \<open>sessions\<close> of \<open>chrome.storage.local\<close>
  (\<open>None\<close> when the key is absent). \<open>errorLog\<close> collects the calls of
  \<open>console.error\<close>.
\<close>

record coordinator =
  bg_sessionId :: "string option"
  bg_recording :: bool
  totalEvents :: counters
  segmentCount :: nat
  stateRestored :: bool
  writeQueue :: "writeOp list"
  inflight :: "(writeOp \<times> sessions) option"
  localSessions :: "sessions option"
  sessionStore :: mirror
  errorLog :: "string list"

definition getSessions :: "coordinator \<Rightarrow> sessions" where
  "getSessions st = (case localSessions st of None \<Rightarrow> [] | Some m \<Rightarrow> m)"

text \<open>The property key \<open>sessions[sessionId]\<close> uses: \<open>null\<close> is converted to the
  string \<open>null\<close>.\<close>

definition sessionKey :: "string option \<Rightarrow> string" where
  "sessionKey sid = (case sid of None \<Rightarrow> ''null'' | Some s \<Rightarrow> s)"

definition enqueueWrite :: "writeOp \<Rightarrow> coordinator \<Rightarrow> coordinator" where
  "enqueueWrite fn st = st\<lparr> writeQueue := writeQueue st @ [fn] \<rparr>"

definition persistCounters :: "coordinator \<Rightarrow> coordinator" where
  "persistCounters st =
    st\<lparr> sessionStore := (sessionStore st)\<lparr> ss_totalEvents := Some (totalEvents st),
                                            ss_segmentCount := Some (segmentCount st) \<rparr> \<rparr>"

definition restoreState :: "coordinator \<Rightarrow> coordinator" where
  "restoreState st =
    (if stateRestored st then st
     else let r = sessionStore st;
              st1 = (if truthySession (ss_sessionId r)
                     then st\<lparr> bg_sessionId := ss_sessionId r \<rparr> else st);
              st2 = (if ss_recording r = Some True
                     then st1\<lparr> bg_recording := True \<rparr> else st1);
              st3 = (case ss_totalEvents r of
                       Some t \<Rightarrow> st2\<lparr> totalEvents := t \<rparr> | None \<Rightarrow> st2);
              st4 = (case ss_segmentCount r of
                       Some n \<Rightarrow> st3\<lparr> segmentCount := n \<rparr> | None \<Rightarrow> st3)
          in st4\<lparr> stateRestored := True \<rparr>)"

text \<open>A worker that has just been (re)started: the variables have their initial
  values, the two storage areas keep what they held, and nothing is queued.\<close>

definition restartWorker :: "coordinator \<Rightarrow> coordinator" where
  "restartWorker st =
    restoreState
      \<lparr> bg_sessionId = None, bg_recording = False, totalEvents = zeroCounters,
        segmentCount = 0, stateRestored = False, writeQueue = [], inflight = None,
        localSessions = localSessions st, sessionStore = sessionStore st, errorLog = [] \<rparr>"

subsection \<open>Running the write queue\<close>

text \<open>
  An operation starts when the promise before it has settled: nothing is in flight.
  It reads \<open>sessions\<close> (\<open>opStart\<close>), and after the read it changes what it read and
  writes it back (\<open>opFinish\<close>). \<open>writeOk\<close> says whether
  \<open>chrome.storage.local.set\<close> succeeds; a rejection is caught by the \<open>catch\<close> of
  \<open>enqueueWrite\<close>, which logs it. \<open>now\<close> is \<open>Date.now()\<close>.
\<close>

definition opStart :: "coordinator \<Rightarrow> coordinator option" where
  "opStart st =
    (case (inflight st, writeQueue st) of
       (None, fn # rest) \<Rightarrow>
         Some (st\<lparr> writeQueue := rest, inflight := Some (fn, getSessions st) \<rparr>)
     | _ \<Rightarrow> None)"

definition storageError :: string where
  "storageError = ''[TM background] storage write error:''"

definition opFinish :: "int \<Rightarrow> bool \<Rightarrow> coordinator \<Rightarrow> coordinator option" where
  "opFinish now writeOk st =
    (case inflight st of
       None \<Rightarrow> None
     | Some (fn, sessions) \<Rightarrow>
         let key = sessionKey (bg_sessionId st); st0 = st\<lparr> inflight := None \<rparr> in
         Some (case fn of
           InitSession \<Rightarrow>
             if writeOk
             then st0\<lparr> localSessions := Some (AList.update key
                          \<lparr> startTime = now, segments = [], pageMeta = [] \<rparr> sessions) \<rparr>
             else st0\<lparr> errorLog := errorLog st0 @ [storageError] \<rparr>
         | PushSegment seg \<Rightarrow>
             (case map_of sessions key of
                None \<Rightarrow> st0
              | Some session \<Rightarrow>
                  let session' = session\<lparr> segments := segments session @ [seg] \<rparr>;
                      st1 = st0\<lparr> segmentCount := length (segments session') \<rparr>
                  in if writeOk
                     then persistCounters
                            (st1\<lparr> localSessions := Some (AList.update key session' sessions) \<rparr>)
                     else st1\<lparr> errorLog := errorLog st1 @ [storageError] \<rparr>)
         | PushPageMeta meta \<Rightarrow>
             (case map_of sessions key of
                None \<Rightarrow> st0
              | Some session \<Rightarrow>
                  let session' = session\<lparr> pageMeta := pageMeta session @ [meta] \<rparr>
                  in if writeOk
                     then st0\<lparr> localSessions := Some (AList.update key session' sessions) \<rparr>
                     else st0\<lparr> errorLog := errorLog st0 @ [storageError] \<rparr>)))"

text \<open>One queued operation from its start to its end, and the whole queue, with no
  other code of the worker running in between.\<close>

definition runNext :: "int \<Rightarrow> bool \<Rightarrow> coordinator \<Rightarrow> coordinator" where
  "runNext now writeOk st =
    (case opStart st of
       None \<Rightarrow> st
     | Some st1 \<Rightarrow> (case opFinish now writeOk st1 of None \<Rightarrow> st1 | Some st2 \<Rightarrow> st2))"

definition drainQueue :: "int \<Rightarrow> coordinator \<Rightarrow> coordinator" where
  "drainQueue now st = fold (\<lambda>_. runNext now True) (writeQueue st) st"

subsection \<open>Telemetry and page metadata\<close>

definition segmentOf :: "telemetry \<Rightarrow> segment" where
  "segmentOf d =
    \<lparr> seg_segmentId = m_segmentId d, seg_tabId = m_tabId d, seg_url = m_url d,
      seg_hostname = m_hostname d, seg_timestamp = m_timestamp d,
      seg_isSegmentEnd = m_isSegmentEnd d,
      seg_mouse = m_mouse d, seg_clicks = m_clicks d,
      seg_keystrokes = m_keystrokes d, seg_scroll = m_scroll d \<rparr>"

definition segHasData :: "segment \<Rightarrow> bool" where
  "segHasData seg \<longleftrightarrow>
     length (seg_mouse seg) \<noteq> 0 \<or> length (seg_clicks seg) \<noteq> 0 \<or>
     length (seg_keystrokes seg) \<noteq> 0 \<or> length (seg_scroll seg) \<noteq> 0"

definition storeTelemetry :: "telemetry \<Rightarrow> coordinator \<Rightarrow> coordinator" where
  "storeTelemetry d st =
    (if \<not> bg_recording st \<or> \<not> truthySession (bg_sessionId st) then st
     else let t = totalEvents st;
              st1 = st\<lparr> totalEvents :=
                      \<lparr> c_mouse = c_mouse t + length (m_mouse d),
                        c_clicks = c_clicks t + length (m_clicks d),
                        c_keystrokes = c_keystrokes t + length (m_keystrokes d),
                        c_scroll = c_scroll t + length (m_scroll d) \<rparr> \<rparr>;
              seg = segmentOf d
          in if \<not> segHasData seg then st1 else enqueueWrite (PushSegment seg) st1)"

definition storePageMeta :: "pageMetaMsg \<Rightarrow> coordinator \<Rightarrow> coordinator" where
  "storePageMeta d st =
    (if \<not> bg_recording st \<or> \<not> truthySession (bg_sessionId st) then st
     else enqueueWrite
            (PushPageMeta \<lparr> sm_url = pm_url d, sm_hostname = pm_hostname d,
                            sm_clientHints = pm_clientHints d, sm_network = pm_network d,
                            sm_timestamp = pm_timestamp d \<rparr>) st)"

text \<open>\<open>startNewSession\<close> up to the point where it waits for the queue: the new id
  (\<open>uuid\<close>, from \<open>crypto.randomUUID()\<close>), the mirror, and the queued creation of
  the session entry.\<close>

definition startNewSession :: "string \<Rightarrow> coordinator \<Rightarrow> coordinator" where
  "startNewSession uuid st =
    enqueueWrite InitSession
      (st\<lparr> bg_sessionId := Some uuid, totalEvents := zeroCounters, segmentCount := 0,
           sessionStore := \<lparr> ss_sessionId = Some uuid, ss_recording = Some True,
                              ss_totalEvents = Some zeroCounters,
                              ss_segmentCount = Some 0 \<rparr> \<rparr>)"

subsection \<open>Export\<close>

record consolidatedSegment =
  cs_segmentId :: int
  cs_tabId :: "int option"
  cs_url :: string
  cs_hostname :: string
  cs_startTime :: int
  cs_endTime :: int
  cs_mouse :: "mouseRecord list"
  cs_clicks :: "clickRecord list"
  cs_keystrokes :: "keyRecord list"
  cs_scroll :: "scrollRecord list"

record exportedSession =
  ex_sessionId :: string
  ex_startTime :: int
  ex_pageMeta :: "storedMeta list"
  ex_totalSegments :: nat
  ex_segments :: "consolidatedSegment list"

definition newCurrentSeg :: "segment \<Rightarrow> consolidatedSegment" where
  "newCurrentSeg seg =
    \<lparr> cs_segmentId = seg_segmentId seg, cs_tabId = seg_tabId seg, cs_url = seg_url seg,
      cs_hostname = seg_hostname seg,
      cs_startTime = seg_timestamp seg, cs_endTime = seg_timestamp seg,
      cs_mouse = seg_mouse seg, cs_clicks = seg_clicks seg,
      cs_keystrokes = seg_keystrokes seg, cs_scroll = seg_scroll seg \<rparr>"

definition pushInto :: "consolidatedSegment \<Rightarrow> segment \<Rightarrow> consolidatedSegment" where
  "pushInto cur seg =
    cur\<lparr> cs_mouse := cs_mouse cur @ seg_mouse seg,
         cs_clicks := cs_clicks cur @ seg_clicks seg,
         cs_keystrokes := cs_keystrokes cur @ seg_keystrokes seg,
         cs_scroll := cs_scroll cur @ seg_scroll seg,
         cs_endTime := seg_timestamp seg \<rparr>"

text \<open>The loop over \<open>session.segments\<close>, with its two variables \<open>currentSeg\<close> and
  \<open>mergedSegments\<close>; the last equation is the push after the loop.\<close>

fun mergeLoop ::
  "segment list \<Rightarrow> consolidatedSegment option \<Rightarrow> consolidatedSegment list
     \<Rightarrow> consolidatedSegment list" where
  "mergeLoop (seg # rest) currentSeg mergedSegments =
    (case currentSeg of
       Some cur \<Rightarrow>
         if cs_segmentId cur = seg_segmentId seg
         then mergeLoop rest (Some (pushInto cur seg)) mergedSegments
         else mergeLoop rest (Some (newCurrentSeg seg)) (mergedSegments @ [cur])
     | None \<Rightarrow> mergeLoop rest (Some (newCurrentSeg seg)) mergedSegments)"
| "mergeLoop [] currentSeg mergedSegments =
    (case currentSeg of Some cur \<Rightarrow> mergedSegments @ [cur] | None \<Rightarrow> mergedSegments)"

definition mergeSegments :: "segment list \<Rightarrow> consolidatedSegment list" where
  "mergeSegments segs = mergeLoop segs None []"

definition consolidateSession :: "string \<times> session \<Rightarrow> string \<times> exportedSession" where
  "consolidateSession p =
    (case p of (sid, session) \<Rightarrow>
       let mergedSegments = mergeSegments (segments session) in
       (sid, \<lparr> ex_sessionId = sid, ex_startTime = startTime session,
               ex_pageMeta = pageMeta session,
               ex_totalSegments = length mergedSegments,
               ex_segments = mergedSegments \<rparr>))"

definition consolidate :: "sessions \<Rightarrow> (string \<times> exportedSession) list" where
  "consolidate sessions = map consolidateSession sessions"

text \<open>
  What \<open>chrome.downloads.download\<close> does with the data URL: it resolves to an id,
  it resolves to \<open>undefined\<close> (with the message of \<open>chrome.runtime.lastError\<close>, if
  any), or it throws an error with a message. The encoding of the document (JSON,
  base64) is not modelled: \<open>exportDocument\<close> is the object that is serialised.
\<close>

datatype downloadOutcome =
    DownloadId
  | DownloadUndefined "string option"
  | DownloadThrows "string option"

record exportEnv =
  filename :: string
  download :: downloadOutcome

datatype exportResult = ExportSuccess string | ExportFailure string

definition exportDocument :: "coordinator \<Rightarrow> (string \<times> exportedSession) list" where
  "exportDocument st = consolidate (getSessions st)"

definition exportData :: "exportEnv \<Rightarrow> coordinator \<Rightarrow> exportResult" where
  "exportData x st =
    (if length (map fst (getSessions st)) = 0 then ExportFailure ''No data to export''
     else (case download x of
             DownloadId \<Rightarrow> ExportSuccess (filename x)
           | DownloadUndefined m \<Rightarrow> ExportFailure (orElse m ''Download failed'')
           | DownloadThrows m \<Rightarrow> ExportFailure (orElse m ''Download failed'')))"

definition clearData :: "coordinator \<Rightarrow> coordinator" where
  "clearData st =
    persistCounters (st\<lparr> localSessions := None, totalEvents := zeroCounters,
                         segmentCount := 0 \<rparr>)"

subsection \<open>Message handling\<close>

record statusReply =
  sr_recording :: bool
  sr_sessionId :: "string option"
  sr_totalEvents :: counters
  sr_segmentCount :: nat

datatype request =
    FromPage "int option" message
  | PopupGetStatus
  | PopupExport
  | PopupClear

datatype response =
    RSuccess
  | RStatus statusReply
  | RExport exportResult
  | RNull

text \<open>
  The listener: it restores the state, then handles the message. A message from a
  page comes with the id of the sender's tab. The answer to \<open>content_ready\<close> (a
  \<open>start_recording\<close> sent to the tab while recording) does not change the worker's
  state. The requests \<open>popup_start\<close> and \<open>popup_stop\<close>, which broadcast to the
  tabs, and the listener for the system's idle state are not part of this model.
\<close>

definition handleMessage :: "exportEnv \<Rightarrow> request \<Rightarrow> coordinator \<Rightarrow> response \<times> coordinator" where
  "handleMessage x msg st0 =
    (let st = restoreState st0 in
     case msg of
       FromPage tabId (Telemetry d) \<Rightarrow> (RSuccess, storeTelemetry (d\<lparr> m_tabId := tabId \<rparr>) st)
     | FromPage tabId (PageMeta d) \<Rightarrow> (RSuccess, storePageMeta d st)
     | FromPage tabId ContentReady \<Rightarrow> (RSuccess, st)
     | FromPage tabId (ContentStatus c) \<Rightarrow> (RNull, st)
     | PopupGetStatus \<Rightarrow>
         (RStatus \<lparr> sr_recording = bg_recording st, sr_sessionId = bg_sessionId st,
                    sr_totalEvents = totalEvents st, sr_segmentCount = segmentCount st \<rparr>, st)
     | PopupExport \<Rightarrow> (RExport (exportData x st), st)
     | PopupClear \<Rightarrow> (RSuccess, clearData st))"

subsection \<open>The worker's event loop\<close>

text \<open>
  What the worker does next: it handles a message (the synchronous part of the
  handler, which may enqueue a write), it starts the next queued operation, or the
  operation in flight finishes. A step that is not possible in a state gives \<open>None\<close>.
\<close>

datatype action =
    Deliver request
  | OpStart
  | OpFinish int bool

fun act :: "exportEnv \<Rightarrow> action \<Rightarrow> coordinator \<Rightarrow> coordinator option" where
  "act x (Deliver msg) st = Some (snd (handleMessage x msg st))"
| "act x OpStart st = opStart st"
| "act x (OpFinish now writeOk) st = opFinish now writeOk st"

fun exec :: "exportEnv \<Rightarrow> action list \<Rightarrow> coordinator \<Rightarrow> coordinator option" where
  "exec x [] st = Some st"
| "exec x (a # as) st = (case act x a st of None \<Rightarrow> None | Some st' \<Rightarrow> exec x as st')"

section \<open>Definitions used to state the properties\<close>

text \<open>The payload a call of \<open>flushBuffers\<close> builds, if it gets past its two guards.
  Whether the payload is then sent depends on the runtime.\<close>

definition flushPayload :: "env \<Rightarrow> bool \<Rightarrow> page \<Rightarrow> telemetry option" where
  "flushPayload e isSegmentEnd s =
    (if \<not> recording s \<or> \<not> truthySession (sessionId s) then None
     else if \<not> hasData s \<and> \<not> isSegmentEnd then None
     else Some (buildPayload e isSegmentEnd s))"

subsection \<open>Example inputs\<close>

definition envAt :: "int \<Rightarrow> env" where
  "envAt t =
    \<lparr> perfNowTouch = t, perfNow = t, dateNow = 1700000000000 + t,
      href = ''https://example.org/'', hostname = ''example.org'',
      scrollX = 0, scrollY = 0, hidden = False, runtime = RuntimeOk,
      clientHints = ''{}'', networkMeta = ''{}'' \<rparr>"

definition exampleClick :: clickEvent where
  "exampleClick = \<lparr> ce_clientX = 10, ce_clientY = 20, ce_button = 0, ce_target = None \<rparr>"

definition startedPage :: page where
  "startedPage = dispatch (envAt 0, StartRecordingMsg (Some ''s1'')) (initialPage (envAt 0))"

definition clickedPage :: page where
  "clickedPage = dispatch (envAt 100, Click exampleClick) startedPage"

subsection \<open>Key records of a page\<close>

text \<open>A key record is redacted when its key is absent or on the allow-list.
  \<open>pageKeys\<close> are the key records a page holds in its buffer or has sent.\<close>

definition redactedKey :: "keyRecord \<Rightarrow> bool" where
  "redactedKey r \<longleftrightarrow> (case kr_key r of None \<Rightarrow> True | Some k \<Rightarrow> k \<in> set LOGGABLE_KEYS)"

fun messageKeys :: "message \<Rightarrow> keyRecord list" where
  "messageKeys (Telemetry t) = m_keystrokes t"
| "messageKeys (PageMeta m) = []"
| "messageKeys (ContentStatus c) = []"
| "messageKeys ContentReady = []"

definition pageKeys :: "page \<Rightarrow> keyRecord list" where
  "pageKeys s = keystrokeBuffer s @ concat (map messageKeys (outbox s))"

definition keysRedacted :: "page \<Rightarrow> bool" where
  "keysRedacted s \<longleftrightarrow> list_all redactedKey (pageKeys s)"

definition keyPress :: "string \<Rightarrow> keyEvent" where
  "keyPress k = \<lparr> ke_key = k, ke_target = None \<rparr>"

definition exampleKeys :: "(env \<times> pageEvent) list" where
  "exampleKeys =
    [(envAt 100, KeyDown (keyPress ''a'')), (envAt 180, KeyUp (keyPress ''a'')),
     (envAt 300, KeyDown (keyPress ''Enter'')), (envAt 400, KeyDown (keyPress ''Shift''))]"

subsection \<open>Flushes of a run\<close>

text \<open>
  \<open>flushesSince base s\<close> are the telemetry payloads the page has sent after the first
  \<open>base\<close> messages of its outbox. A command is a start or stop message.
  \<open>flushStep s s'\<close> says what one handler call may do to the segment id, the idle
  flag and the outbox; \<open>flushInv\<close> is what then holds of the payloads sent since the
  start of a run.
\<close>

fun telemetryOf :: "message \<Rightarrow> telemetry list" where
  "telemetryOf (Telemetry t) = [t]"
| "telemetryOf (PageMeta m) = []"
| "telemetryOf (ContentStatus c) = []"
| "telemetryOf ContentReady = []"

definition flushesSince :: "nat \<Rightarrow> page \<Rightarrow> telemetry list" where
  "flushesSince base s = concat (map telemetryOf (drop base (outbox s)))"

fun isCommand :: "env \<times> pageEvent \<Rightarrow> bool" where
  "isCommand (e, StartRecordingMsg sid) = True"
| "isCommand (e, StopRecordingMsg) = True"
| "isCommand (e, ev) = False"

definition flushStep :: "page \<Rightarrow> page \<Rightarrow> bool" where
  "flushStep s s' \<longleftrightarrow>
     segmentId s \<le> segmentId s' \<and>
     (isIdle s \<and> segmentId s' = segmentId s \<longrightarrow> isIdle s') \<and>
     (outbox s' = outbox s \<or>
      (\<exists>m. outbox s' = outbox s @ [m] \<and>
           (\<forall>t \<in> set (telemetryOf m).
              m_segmentId t = segmentId s' \<and>
              (m_isSegmentEnd t \<longrightarrow> \<not> isIdle s \<and> isIdle s' \<and> segmentId s' = segmentId s))))"

definition flushInv :: "nat \<Rightarrow> page \<Rightarrow> bool" where
  "flushInv base s \<longleftrightarrow>
     base \<le> length (outbox s) \<and> 1 \<le> segmentId s \<and>
     sorted (map m_segmentId (flushesSince base s)) \<and>
     sorted_wrt (<) (map m_segmentId (filter m_isSegmentEnd (flushesSince base s))) \<and>
     (\<forall>t \<in> set (flushesSince base s).
        1 \<le> m_segmentId t \<and> m_segmentId t \<le> segmentId s \<and>
        (m_isSegmentEnd t \<longrightarrow> m_segmentId t < segmentId s \<or> isIdle s))"

definition periodicThenIdle :: "(env \<times> pageEvent) list" where
  "periodicThenIdle =
    [(envAt 100, Click exampleClick), (envAt 5000, FlushTick), (envAt 8000, IdleTick)]"

definition twoSegments :: "(env \<times> pageEvent) list" where
  "twoSegments =
    periodicThenIdle @
    [(envAt 9000, Click exampleClick), (envAt 10000, FlushTick), (envAt 13000, IdleTick)]"

subsection \<open>The previous click of the current segment\<close>

text \<open>
  The history the delta of a click refers to, told from the events and not from the
  tracker variable. A click is recorded when its listener is attached and the page is
  recording. An event starts a segment when the segment id changes or recording
  starts. \<open>prevClick evs s p\<close> follows the events \<open>evs\<close> from state \<open>s\<close>: the time of
  the latest recorded click since the latest start of a segment, if there is one
  (\<open>p\<close> is that time at \<open>s\<close>).
\<close>

fun recordedClick :: "env \<times> pageEvent \<Rightarrow> page \<Rightarrow> bool" where
  "recordedClick (e, Click ev) s = (listening s \<and> recording s)"
| "recordedClick (e, ev) s = False"

fun isStart :: "env \<times> pageEvent \<Rightarrow> bool" where
  "isStart (e, StartRecordingMsg sid) = True"
| "isStart (e, ev) = False"

definition startsSegment :: "env \<times> pageEvent \<Rightarrow> page \<Rightarrow> bool" where
  "startsSegment x s \<longleftrightarrow>
     segmentId (dispatch x s) \<noteq> segmentId s \<or> (isStart x \<and> \<not> recording s)"

fun prevClick :: "(env \<times> pageEvent) list \<Rightarrow> page \<Rightarrow> int option \<Rightarrow> int option" where
  "prevClick [] s p = p"
| "prevClick (x # xs) s p =
     prevClick xs (dispatch x s)
       (if recordedClick x s then Some (perfNow (fst x))
        else if startsSegment x s then None else p)"

definition clickThenFlush :: "(env \<times> pageEvent) list" where
  "clickThenFlush =
    [(envAt 0, StartRecordingMsg (Some ''s1'')), (envAt 100, Click exampleClick),
     (envAt 5000, FlushTick)]"

text \<open>An input element with a given \<open>name\<close>, and a key pressed in it.\<close>

definition namedField :: "string \<Rightarrow> element" where
  "namedField n =
    \<lparr> tagName = Some ''INPUT'', el_id = None, className = ClassNull, el_name = Some n,
      el_type = Some ''text'', innerText = None, isContentEditable = False \<rparr>"

definition keyIn :: "string \<Rightarrow> keyEvent" where
  "keyIn n = \<lparr> ke_key = ''a'', ke_target = Some (namedField n) \<rparr>"

subsection \<open>Fragments held by the worker\<close>

text \<open>The fragments in the store, those captured by queued operations, and those of
  the operation in flight (its own and those of the \<open>sessions\<close> it has read).\<close>

fun opFragments :: "writeOp \<Rightarrow> segment list" where
  "opFragments (PushSegment seg) = [seg]"
| "opFragments InitSession = []"
| "opFragments (PushPageMeta meta) = []"

definition storedFragments :: "sessions \<Rightarrow> segment list" where
  "storedFragments sessions = concat (map (\<lambda>p. segments (snd p)) sessions)"

definition allFragments :: "coordinator \<Rightarrow> segment list" where
  "allFragments st =
    storedFragments (getSessions st) @ concat (map opFragments (writeQueue st)) @
    (case inflight st of None \<Rightarrow> [] | Some (fn, snap) \<Rightarrow> opFragments fn @ storedFragments snap)"

fun delivered :: "action \<Rightarrow> segment list" where
  "delivered (Deliver (FromPage tabId (Telemetry d))) =
     (if segHasData (segmentOf d) then [segmentOf (d\<lparr> m_tabId := tabId \<rparr>)] else [])"
| "delivered _ = []"

subsection \<open>Example inputs for the worker\<close>

definition exampleCoordinator :: coordinator where
  "exampleCoordinator =
    \<lparr> bg_sessionId = Some ''s1'', bg_recording = True,
      totalEvents = \<lparr> c_mouse = 0, c_clicks = 0, c_keystrokes = 0, c_scroll = 0 \<rparr>,
      segmentCount = 0, stateRestored = True, writeQueue = [], inflight = None,
      localSessions = Some [(''s1'', \<lparr> startTime = 1700000000000, segments = [],
                                        pageMeta = [] \<rparr>)],
      sessionStore = \<lparr> ss_sessionId = Some ''s1'', ss_recording = Some True,
                         ss_totalEvents = Some \<lparr> c_mouse = 0, c_clicks = 0,
                                                  c_keystrokes = 0, c_scroll = 0 \<rparr>,
                         ss_segmentCount = Some 0 \<rparr>,
      errorLog = [] \<rparr>"

definition exampleExportEnv :: exportEnv where
  "exampleExportEnv = \<lparr> filename = ''telemetry_export.json'', download = DownloadId \<rparr>"

text \<open>The payload of a periodic flush of the page with one click, and the payload of
  a terminal flush of a page with nothing buffered.\<close>

definition clickPayload :: telemetry where
  "clickPayload = buildPayload (envAt 5000) False clickedPage"

definition emptyTerminalPayload :: telemetry where
  "emptyTerminalPayload = buildPayload (envAt 9000) True startedPage"

definition exampleSchedule :: "action list" where
  "exampleSchedule =
    [Deliver (FromPage (Some 7) (Telemetry clickPayload)),
     Deliver (FromPage (Some 7) (Telemetry emptyTerminalPayload)),
     OpStart, OpFinish 1700000005001 True]"

text \<open>A fragment and a page-metadata message that carry the id of a session that is
  not in the store, and the worker after a clear request.\<close>

definition stalePayload :: telemetry where
  "stalePayload = clickPayload\<lparr> m_sessionId := Some ''s0'' \<rparr>"

definition staleMeta :: pageMetaMsg where
  "staleMeta =
    \<lparr> pm_sessionId = Some ''s0'', pm_url = ''https://example.org/'',
      pm_hostname = ''example.org'', pm_clientHints = Some ''{}'', pm_network = Some ''{}'',
      pm_timestamp = 1700000000000 \<rparr>"

definition clearedCoordinator :: coordinator where
  "clearedCoordinator = snd (handleMessage exampleExportEnv PopupClear exampleCoordinator)"

subsection \<open>Submissions and queue steps\<close>

text \<open>
  The fragments stored for a session; the fragments of operations that have been
  enqueued and have not finished; the actions that submit a fragment with at least
  one event record; the steps of the queue, a finishing step being one whose write
  succeeds. \<open>serving sid\<close>: the worker is recording session \<open>sid\<close>, which has an entry
  in the store, and whatever is queued or in flight is the append of a fragment.
\<close>

definition sessionFragments :: "string \<Rightarrow> coordinator \<Rightarrow> segment list" where
  "sessionFragments sid st =
    (case map_of (getSessions st) sid of None \<Rightarrow> [] | Some session \<Rightarrow> segments session)"

definition pendingFragments :: "coordinator \<Rightarrow> segment list" where
  "pendingFragments st =
    (case inflight st of None \<Rightarrow> [] | Some (fn, snap) \<Rightarrow> opFragments fn) @
    concat (map opFragments (writeQueue st))"

fun isSubmission :: "action \<Rightarrow> bool" where
  "isSubmission (Deliver (FromPage tabId (Telemetry d))) = segHasData (segmentOf d)"
| "isSubmission _ = False"

fun isQueueStep :: "action \<Rightarrow> bool" where
  "isQueueStep OpStart = True"
| "isQueueStep (OpFinish now writeOk) = writeOk"
| "isQueueStep (Deliver msg) = False"

fun isPush :: "writeOp \<Rightarrow> bool" where
  "isPush (PushSegment seg) = True"
| "isPush _ = False"

definition serving :: "string \<Rightarrow> coordinator \<Rightarrow> bool" where
  "serving sid st \<longleftrightarrow>
     stateRestored st \<and> bg_recording st \<and> bg_sessionId st = Some sid \<and> sid \<noteq> [] \<and>
     map_of (getSessions st) sid \<noteq> None \<and>
     list_all isPush (writeQueue st) \<and>
     (case inflight st of None \<Rightarrow> True | Some (fn, snap) \<Rightarrow> isPush fn \<and> snap = getSessions st)"

definition interleavedSchedule :: "action list" where
  "interleavedSchedule =
    [Deliver (FromPage (Some 7) (Telemetry clickPayload)),
     OpStart,
     Deliver (FromPage (Some 8) (Telemetry (clickPayload\<lparr> m_segmentId := 3 \<rparr>))),
     OpFinish 1700000005010 True,
     OpStart,
     OpFinish 1700000005020 True]"

text \<open>
  A worker whose store holds two sessions, \<open>s0\<close> and the current one \<open>s1\<close>, with two
  fragments addressed to \<open>s0\<close>; and a worker that has stopped recording, with two
  fragments addressed to its session \<open>s1\<close>.
\<close>

definition twoSessionCoordinator :: coordinator where
  "twoSessionCoordinator =
    exampleCoordinator\<lparr> localSessions :=
      Some [(''s0'', \<lparr> startTime = 1699999000000, segments = [], pageMeta = [] \<rparr>),
            (''s1'', \<lparr> startTime = 1700000000000, segments = [], pageMeta = [] \<rparr>)] \<rparr>"

definition staleSchedule :: "action list" where
  "staleSchedule =
    [Deliver (FromPage (Some 7) (Telemetry stalePayload)),
     OpStart,
     Deliver (FromPage (Some 8) (Telemetry stalePayload)),
     OpFinish 1700000005010 True,
     OpStart,
     OpFinish 1700000005020 True]"

definition stoppedCoordinator :: coordinator where
  "stoppedCoordinator =
    exampleCoordinator\<lparr> bg_recording := False,
      sessionStore := (sessionStore exampleCoordinator)\<lparr> ss_recording := Some False \<rparr> \<rparr>"

definition lateSchedule :: "action list" where
  "lateSchedule =
    [Deliver (FromPage (Some 7) (Telemetry clickPayload)),
     Deliver (FromPage (Some 8) (Telemetry clickPayload))]"

text \<open>A fragment arrives, its queued write reads \<open>sessions\<close>, a clear request is
  handled, and the write finishes.\<close>

definition clearRaceSchedule :: "action list" where
  "clearRaceSchedule =
    [Deliver (FromPage (Some 7) (Telemetry clickPayload)),
     OpStart,
     Deliver PopupClear,
     OpFinish 1700000005010 True]"

subsection \<open>Consolidation as the specification words it\<close>

text \<open>
  The specification's account of consolidation, to compare \<open>mergeSegments\<close> with: the
  fragment list is cut into its maximal runs of consecutive fragments with the same
  segment id (\<open>runsOf\<close>; a run is its first fragment and the fragments after it), and
  each run becomes one logical segment (\<open>mergeRun\<close>) that starts at the first
  fragment's timestamp, ends at the last one's, and whose buffers are the fragments'
  buffers in order.
\<close>

function runsOf :: "segment list \<Rightarrow> (segment \<times> segment list) list" where
  "runsOf [] = []"
| "runsOf (f # fs) =
     (f, takeWhile (\<lambda>g. seg_segmentId g = seg_segmentId f) fs) #
     runsOf (dropWhile (\<lambda>g. seg_segmentId g = seg_segmentId f) fs)"
  by pat_completeness auto

termination
  by (relation "measure length") (auto simp: length_dropWhile_le less_Suc_eq_le)

definition mergeRun :: "segment \<times> segment list \<Rightarrow> consolidatedSegment" where
  "mergeRun r =
    (case r of (f, fs) \<Rightarrow>
      \<lparr> cs_segmentId = seg_segmentId f, cs_tabId = seg_tabId f, cs_url = seg_url f,
        cs_hostname = seg_hostname f,
        cs_startTime = seg_timestamp f, cs_endTime = seg_timestamp (last (f # fs)),
        cs_mouse = concat (map seg_mouse (f # fs)),
        cs_clicks = concat (map seg_clicks (f # fs)),
        cs_keystrokes = concat (map seg_keystrokes (f # fs)),
        cs_scroll = concat (map seg_scroll (f # fs)) \<rparr>)"

definition specConsolidate :: "segment list \<Rightarrow> consolidatedSegment list" where
  "specConsolidate frags = map mergeRun (runsOf frags)"

definition exampleFragment :: "int \<Rightarrow> bool \<Rightarrow> int \<Rightarrow> segment" where
  "exampleFragment i terminal t =
    \<lparr> seg_segmentId = i, seg_tabId = Some 7, seg_url = ''https://example.org/'',
      seg_hostname = ''example.org'', seg_timestamp = t, seg_isSegmentEnd = terminal,
      seg_mouse = [],
      seg_clicks = [\<lparr> cr_t = t, cr_x = 10, cr_y = 20, cr_button = ''left'',
                      cr_target = None, cr_dt_since_last = None \<rparr>],
      seg_keystrokes = [], seg_scroll = [] \<rparr>"

section \<open>Properties of the content script\<close>

subsection \<open>Closed forms of flush and stop\<close>

lemma flushBuffers_eq:
  "flushBuffers e b s =
    (if \<not> recording s \<or> \<not> truthySession (sessionId s) then s
     else if \<not> hasData s \<and> \<not> b then s
     else (case runtime e of
             RuntimeOk \<Rightarrow>
               (spliceAll s)\<lparr> outbox := outbox s @ [Telemetry (buildPayload e b s)] \<rparr>
           | RuntimeNoId \<Rightarrow> spliceAll s
           | RuntimeThrows \<Rightarrow>
               clearTimers ((spliceAll s)\<lparr> recording := False, listening := False \<rparr>)))"
proof -
  have nr: "\<And>e b s. \<not> recording s \<Longrightarrow> flushBuffers e b s = s"
    by (subst flushBuffers.simps) simp
  have st: "\<And>e s. recording s \<Longrightarrow>
      stopRecording e s = clearTimers (s\<lparr> recording := False, listening := False \<rparr>)"
    by (subst stopRecording.simps) (simp add: nr)
  show ?thesis
    by (subst flushBuffers.simps) (simp add: st spliceAll_def split: runtimeStatus.split)
qed

lemma stopRecording_eq:
  "stopRecording e s =
    (if \<not> recording s then s
     else clearTimers (s\<lparr> recording := False, listening := False \<rparr>))"
  by (subst stopRecording.simps) (simp add: flushBuffers_eq)

lemma flushBuffers_no_payload: "flushPayload e b s = None \<Longrightarrow> flushBuffers e b s = s"
  by (auto simp: flushPayload_def flushBuffers_eq split: if_splits)

lemmas page_defs =
  envAt_def exampleClick_def startedPage_def clickedPage_def initialPage_def
  startRecording_def startNewSegment_def touchInteraction_def handleClick_def
  truthySession_def buttonName_def hasData_def buildPayload_def spliceAll_def
  clearTimers_def Let_def

lemma clickedPage_eval:
  "recording clickedPage \<and> sessionId clickedPage = Some ''s1'' \<and> segmentId clickedPage = 1 \<and>
   \<not> isIdle clickedPage \<and> listening clickedPage \<and>
   mouseBuffer clickedPage = [] \<and> keystrokeBuffer clickedPage = [] \<and>
   scrollBuffer clickedPage = [] \<and>
   clickBuffer clickedPage =
     [\<lparr> cr_t = 100, cr_x = 10, cr_y = 20, cr_button = ''left'', cr_target = None,
        cr_dt_since_last = None \<rparr>] \<and>
   lastClickTimestamp clickedPage = Some 100 \<and>
   outbox clickedPage =
     [ContentReady,
      PageMeta \<lparr> pm_sessionId = Some ''s1'', pm_url = ''https://example.org/'',
                 pm_hostname = ''example.org'', pm_clientHints = Some ''{}'',
                 pm_network = Some ''{}'', pm_timestamp = 1700000000000 \<rparr>]"
  by (simp add: page_defs)

lemmas tick_defs =
  runPage_def periodicFlush_def checkIdle_def endCurrentSegment_def flushBuffers_eq
  FLUSH_INTERVAL_MS_def IDLE_THRESHOLD_MS_def page_defs

text \<open>Keydowns in fields named \<open>constructor\<close>, \<open>__proto__\<close> and \<open>email\<close>: the first
  delta in a field whose name the tracker object inherits is \<open>NaN\<close>, and in
  \<open>__proto__\<close> every delta is.\<close>

lemma keydown_inherited_field:
  "map kr_dt_since_last (keystrokeBuffer (runPage
      [(envAt 100, KeyDown (keyIn ''constructor'')), (envAt 250, KeyDown (keyIn ''constructor'')),
       (envAt 300, KeyDown (keyIn ''__proto__'')), (envAt 450, KeyDown (keyIn ''__proto__'')),
       (envAt 500, KeyDown (keyIn ''email'')), (envAt 650, KeyDown (keyIn ''email''))]
      startedPage))
   = [DeltaNaN, DeltaMs 150, DeltaNaN, DeltaNaN, DeltaNull, DeltaMs 150]"
  by (simp add: runPage_def keyIn_def namedField_def page_defs handleKeyDown_def getFieldId_def
        orElse_def orNull_def readField_def writeField_def objectPrototypeProperties_def)

subsection \<open>C1: the flush of stopRecording\<close>

text \<open>
  C1 says that a stop-recording command received while recording issues a terminal
  flush that delivers the buffered records. \<open>stopRecording\<close> sets \<open>recording = false\<close>
  before it calls \<open>flushBuffers(true)\<close>, whose first guard then returns: as evaluated
  here, a page with one buffered click that receives the command sends nothing, keeps
  the click in its buffer, and drops it when recording starts again.
\<close>

theorem stopRecording_sends_nothing:
  "clickBuffer clickedPage \<noteq> [] \<and> recording clickedPage \<and>
   outbox (dispatch (envAt 200, StopRecordingMsg) clickedPage) = outbox clickedPage \<and>
   clickBuffer (dispatch (envAt 200, StopRecordingMsg) clickedPage) = clickBuffer clickedPage \<and>
   clickBuffer (dispatch (envAt 300, StartRecordingMsg (Some ''s2''))
                  (dispatch (envAt 200, StopRecordingMsg) clickedPage)) = [] \<and>
   outbox (dispatch (envAt 300, StartRecordingMsg (Some ''s2''))
             (dispatch (envAt 200, StopRecordingMsg) clickedPage)) =
     outbox clickedPage @
       [PageMeta \<lparr> pm_sessionId = Some ''s2'', pm_url = ''https://example.org/'',
                   pm_hostname = ''example.org'', pm_clientHints = Some ''{}'',
                   pm_network = Some ''{}'', pm_timestamp = 1700000000300 \<rparr>]"
  using clickedPage_eval
  by (simp add: stopRecording_eq clearTimers_def startRecording_def startNewSegment_def envAt_def)

subsection \<open>C3: a flush drains the buffers\<close>

text \<open>
  C3: whenever a call of \<open>flushBuffers\<close> builds a payload, each of the four buffers
  goes into the payload whole and in order and is empty afterwards, so the records of
  the payload and the records left in the buffer are disjoint and together are the
  buffer before the flush; the payload is the message sent when the runtime is
  available; and a flush that follows carries none of these records.
\<close>

theorem flush_drain_atomic:
  assumes "flushPayload e b s = Some p"
  shows "m_mouse p = mouseBuffer s \<and> m_clicks p = clickBuffer s \<and>
         m_keystrokes p = keystrokeBuffer s \<and> m_scroll p = scrollBuffer s \<and>
         mouseBuffer (flushBuffers e b s) = [] \<and> clickBuffer (flushBuffers e b s) = [] \<and>
         keystrokeBuffer (flushBuffers e b s) = [] \<and> scrollBuffer (flushBuffers e b s) = [] \<and>
         set (m_mouse p) \<inter> set (mouseBuffer (flushBuffers e b s)) = {} \<and>
         set (m_mouse p) \<union> set (mouseBuffer (flushBuffers e b s)) = set (mouseBuffer s) \<and>
         set (m_clicks p) \<inter> set (clickBuffer (flushBuffers e b s)) = {} \<and>
         set (m_clicks p) \<union> set (clickBuffer (flushBuffers e b s)) = set (clickBuffer s) \<and>
         set (m_keystrokes p) \<inter> set (keystrokeBuffer (flushBuffers e b s)) = {} \<and>
         set (m_keystrokes p) \<union> set (keystrokeBuffer (flushBuffers e b s))
           = set (keystrokeBuffer s) \<and>
         set (m_scroll p) \<inter> set (scrollBuffer (flushBuffers e b s)) = {} \<and>
         set (m_scroll p) \<union> set (scrollBuffer (flushBuffers e b s)) = set (scrollBuffer s) \<and>
         (runtime e = RuntimeOk \<longrightarrow> outbox (flushBuffers e b s) = outbox s @ [Telemetry p]) \<and>
         (\<forall>e' b' p'. flushPayload e' b' (flushBuffers e b s) = Some p' \<longrightarrow>
            m_mouse p' = [] \<and> m_clicks p' = [] \<and> m_keystrokes p' = [] \<and> m_scroll p' = [])"
  using assms
  by (cases "runtime e")
     (auto simp: flushPayload_def flushBuffers_eq buildPayload_def spliceAll_def clearTimers_def
           split: if_splits)

theorem flush_drain_atomic_witness:
  "flushPayload (envAt 5000) False clickedPage
     = Some (buildPayload (envAt 5000) False clickedPage) \<and>
   m_clicks (buildPayload (envAt 5000) False clickedPage) =
     [\<lparr> cr_t = 100, cr_x = 10, cr_y = 20, cr_button = ''left'', cr_target = None,
        cr_dt_since_last = None \<rparr>] \<and>
   clickBuffer (flushBuffers (envAt 5000) False clickedPage) = [] \<and>
   outbox (flushBuffers (envAt 5000) False clickedPage) =
     outbox clickedPage @ [Telemetry (buildPayload (envAt 5000) False clickedPage)]"
proof -
  have h: "flushPayload (envAt 5000) False clickedPage
             = Some (buildPayload (envAt 5000) False clickedPage)"
    using clickedPage_eval by (simp add: flushPayload_def hasData_def truthySession_def)
  have r: "runtime (envAt 5000) = RuntimeOk"
    by (simp add: envAt_def)
  from flush_drain_atomic [OF h] clickedPage_eval r h show ?thesis
    by (simp add: buildPayload_def)
qed

subsection \<open>C4: segment ids of the flushes of a run\<close>

lemma step_touchInteraction: "flushStep s (touchInteraction e s)"
  by (simp add: flushStep_def touchInteraction_def startNewSegment_def Let_def)

lemma step_refl_upd:
  "outbox s' = outbox s \<Longrightarrow> segmentId s' = segmentId s \<Longrightarrow> isIdle s' = isIdle s \<Longrightarrow> flushStep s s'"
  by (simp add: flushStep_def)

lemma step_after_touch:
  assumes "outbox s' = outbox (touchInteraction e s)"
    and "segmentId s' = segmentId (touchInteraction e s)"
    and "isIdle s' = isIdle (touchInteraction e s)"
  shows "flushStep s s'"
  using step_touchInteraction [of s e] assms by (simp add: flushStep_def)

lemma step_handleMouseMove: "flushStep s (handleMouseMove e ev s)"
  by (simp add: flushStep_def handleMouseMove_def touchInteraction_def startNewSegment_def Let_def)

lemma step_sampleMousePosition: "flushStep s (sampleMousePosition e s)"
  by (simp add: flushStep_def sampleMousePosition_def split: option.split)

lemma step_handleClick: "flushStep s (handleClick e ev s)"
proof (cases "recording s")
  case True
  then show ?thesis
    by (intro step_after_touch [where e = e]) (simp_all add: handleClick_def Let_def)
next
  case False
  then show ?thesis by (simp add: handleClick_def flushStep_def)
qed

lemma step_handleKeyDown: "flushStep s (handleKeyDown e ev s)"
proof (cases "recording s")
  case True
  then show ?thesis
    by (intro step_after_touch [where e = e]) (simp_all add: handleKeyDown_def Let_def)
next
  case False
  then show ?thesis by (simp add: handleKeyDown_def flushStep_def)
qed

lemma step_handleKeyUp: "flushStep s (handleKeyUp e ev s)"
proof (cases "recording s")
  case True
  then show ?thesis
    by (intro step_after_touch [where e = e]) (simp_all add: handleKeyUp_def Let_def)
next
  case False
  then show ?thesis by (simp add: handleKeyUp_def flushStep_def)
qed

lemma step_handleScroll: "flushStep s (handleScroll e s)"
proof (cases "recording s")
  case True
  then show ?thesis
    by (intro step_after_touch [where e = e]) (simp_all add: handleScroll_def Let_def)
next
  case False
  then show ?thesis by (simp add: handleScroll_def flushStep_def)
qed

lemma flushBuffers_fields:
  "segmentId (flushBuffers e b s) = segmentId s \<and> isIdle (flushBuffers e b s) = isIdle s \<and>
   (outbox (flushBuffers e b s) = outbox s \<or>
    outbox (flushBuffers e b s) = outbox s @ [Telemetry (buildPayload e b s)])"
  by (simp add: flushBuffers_eq spliceAll_def clearTimers_def split: runtimeStatus.split)

lemma step_periodicFlush: "flushStep s (periodicFlush e s)"
  using flushBuffers_fields [of e False "s\<lparr> lastFlushTime := dateNow e \<rparr>"]
  by (auto simp: flushStep_def periodicFlush_def Let_def buildPayload_def)

lemma step_idle:
  "\<not> isIdle s \<Longrightarrow> flushStep s (endCurrentSegment e (s\<lparr> isIdle := True \<rparr>))"
  using flushBuffers_fields [of e True "s\<lparr> isIdle := True \<rparr>"]
  by (auto simp: flushStep_def endCurrentSegment_def buildPayload_def)

lemma step_checkIdle: "flushStep s (checkIdle e s)"
  by (simp add: checkIdle_def Let_def step_idle) (simp add: flushStep_def)

lemma step_handleVisibilityChange: "flushStep s (handleVisibilityChange e s)"
proof (cases "hidden e \<and> recording s \<and> \<not> isIdle s")
  case True
  with step_idle [of "s\<lparr> pageVisible := False \<rparr>" e] show ?thesis
    by (simp add: handleVisibilityChange_def Let_def flushStep_def)
next
  case False
  then show ?thesis
    by (auto simp: handleVisibilityChange_def Let_def flushStep_def)
qed

lemma step_getStatus: "flushStep s (getStatus e s)"
  by (simp add: flushStep_def getStatus_def split: runtimeStatus.split)

lemma step_dispatch: "\<not> isCommand x \<Longrightarrow> flushStep s (dispatch x s)"
proof (cases x)
  case (Pair e ev)
  assume "\<not> isCommand x"
  with Pair show ?thesis
    by (cases ev)
       (simp_all add: step_getStatus step_handleMouseMove step_handleClick step_handleKeyDown
          step_handleKeyUp step_handleScroll step_handleVisibilityChange
          step_sampleMousePosition step_periodicFlush step_checkIdle step_refl_upd)
qed

lemma flushInv_step:
  assumes inv: "flushInv base s" and st: "flushStep s s'"
  shows "flushInv base s'"
proof -
  from st have le: "segmentId s \<le> segmentId s'"
    and idle: "isIdle s \<and> segmentId s' = segmentId s \<longrightarrow> isIdle s'"
    by (simp_all add: flushStep_def)
  have old: "\<forall>t \<in> set (flushesSince base s).
        1 \<le> m_segmentId t \<and> m_segmentId t \<le> segmentId s' \<and>
        (m_isSegmentEnd t \<longrightarrow> m_segmentId t < segmentId s' \<or> isIdle s')"
  proof
    fix t assume "t \<in> set (flushesSince base s)"
    with inv have a: "1 \<le> m_segmentId t" "m_segmentId t \<le> segmentId s"
      and b: "m_isSegmentEnd t \<longrightarrow> m_segmentId t < segmentId s \<or> isIdle s"
      by (simp_all add: flushInv_def)
    show "1 \<le> m_segmentId t \<and> m_segmentId t \<le> segmentId s' \<and>
        (m_isSegmentEnd t \<longrightarrow> m_segmentId t < segmentId s' \<or> isIdle s')"
    proof (cases "segmentId s' = segmentId s")
      case True
      with a b idle show ?thesis by auto
    next
      case False
      with le a show ?thesis by auto
    qed
  qed
  from st consider (same) "outbox s' = outbox s"
    | (sent) m where "outbox s' = outbox s @ [m]"
        "\<forall>t \<in> set (telemetryOf m). m_segmentId t = segmentId s' \<and>
           (m_isSegmentEnd t \<longrightarrow> \<not> isIdle s \<and> isIdle s' \<and> segmentId s' = segmentId s)"
    by (auto simp: flushStep_def)
  then show ?thesis
  proof cases
    case same
    then have "flushesSince base s' = flushesSince base s"
      by (simp add: flushesSince_def)
    with inv old le same show ?thesis
      by (simp add: flushInv_def)
  next
    case sent
    from inv have b: "base \<le> length (outbox s)"
      by (simp add: flushInv_def)
    with sent(1) have fs: "flushesSince base s' = flushesSince base s @ telemetryOf m"
      by (simp add: flushesSince_def)
    show ?thesis
    proof (cases "telemetryOf m")
      case Nil
      with fs inv old le sent(1) show ?thesis
        by (simp add: flushInv_def)
    next
      case (Cons t ts)
      then have tm: "telemetryOf m = [t]"
        by (cases m) auto
      with sent(2) have id: "m_segmentId t = segmentId s'"
        and tend: "m_isSegmentEnd t \<longrightarrow> \<not> isIdle s \<and> isIdle s' \<and> segmentId s' = segmentId s"
        by simp_all
      from inv have one: "1 \<le> segmentId s" by (simp add: flushInv_def)
      have s1: "sorted (map m_segmentId (flushesSince base s @ [t]))"
        using inv old id by (auto simp: flushInv_def sorted_append)
      have s2: "sorted_wrt (<) (map m_segmentId (filter m_isSegmentEnd (flushesSince base s @ [t])))"
      proof (cases "m_isSegmentEnd t")
        case True
        with tend have ni: "\<not> isIdle s" and eq: "segmentId s' = segmentId s" by simp_all
        from inv ni have "\<forall>u \<in> set (flushesSince base s).
            m_isSegmentEnd u \<longrightarrow> m_segmentId u < segmentId s"
          by (auto simp: flushInv_def)
        with inv True id eq show ?thesis
          by (auto simp: flushInv_def sorted_wrt_append)
      next
        case False
        with inv show ?thesis by (simp add: flushInv_def)
      qed
      from fs tm s1 s2 old id tend le one b sent(1) show ?thesis
        by (auto simp: flushInv_def)
    qed
  qed
qed

lemma flushInv_run:
  "flushInv base s \<Longrightarrow> list_all (\<lambda>x. \<not> isCommand x) evs \<Longrightarrow> flushInv base (runPage evs s)"
  unfolding runPage_def
proof (induction evs arbitrary: s)
  case Nil
  then show ?case by simp
next
  case (Cons x evs)
  from Cons.prems have "flushInv base (dispatch x s)"
    using flushInv_step [OF _ step_dispatch] by simp
  with Cons show ?case by simp
qed

lemma flushInv_start:
  "\<not> recording s \<Longrightarrow> flushInv (length (outbox (startRecording e sid s))) (startRecording e sid s)"
  by (simp add: flushInv_def flushesSince_def startRecording_def startNewSegment_def Let_def
        split: runtimeStatus.split)

lemmas run_defs =
  periodicThenIdle_def twoSegments_def flushesSince_def tick_defs

lemma periodicThenIdle_eval:
  "map (\<lambda>t. (m_segmentId t, m_isSegmentEnd t, length (m_clicks t)))
     (flushesSince 2 (runPage periodicThenIdle startedPage))
     = [(1, False, 1), (1, True, 0)]"
  by (simp add: run_defs)

lemma strict_remdups_adj: "sorted (xs :: int list) \<Longrightarrow> sorted_wrt (<) (remdups_adj xs)"
  by (induction xs rule: remdups_adj.induct) (auto simp: less_le)

lemma twoSegments_eval:
  "map (\<lambda>t. (m_segmentId t, m_isSegmentEnd t, length (m_clicks t)))
     (flushesSince 2 (runPage twoSegments startedPage))
     = [(1, False, 1), (1, True, 0), (2, False, 1), (2, True, 0)]"
  by (simp add: run_defs)

lemma idlePage_eval:
  "recording (checkIdle (envAt 8000) clickedPage) \<and> isIdle (checkIdle (envAt 8000) clickedPage) \<and>
   listening (checkIdle (envAt 8000) clickedPage) \<and>
   segmentId (checkIdle (envAt 8000) clickedPage) = 1"
  using clickedPage_eval
  by (simp add: checkIdle_def endCurrentSegment_def flushBuffers_eq IDLE_THRESHOLD_MS_def
        page_defs)

text \<open>
  C4 as stated fails: the segment ids of the flushes of a run are not strictly
  increasing, because a segment is flushed incrementally. After a start, a click, the
  periodic flush at 5 s and the idle check at 8 s, two payloads have been sent, both
  under segment id 1: the periodic one with the click, and the terminal one.
\<close>

theorem flush_ids_counterexample:
  "\<not> recording (initialPage (envAt 0)) \<and>
   startedPage = startRecording (envAt 0) (Some ''s1'') (initialPage (envAt 0)) \<and>
   length (outbox startedPage) = 2 \<and>
   map m_segmentId (flushesSince 2 (runPage periodicThenIdle startedPage)) = [1, 1] \<and>
   \<not> sorted_wrt (<) (map m_segmentId (flushesSince 2 (runPage periodicThenIdle startedPage)))"
proof -
  from periodicThenIdle_eval
  have "map fst (map (\<lambda>t. (m_segmentId t, m_isSegmentEnd t, length (m_clicks t)))
     (flushesSince 2 (runPage periodicThenIdle startedPage))) = [1, 1]"
    by simp
  then have m: "map m_segmentId (flushesSince 2 (runPage periodicThenIdle startedPage)) = [1, 1]"
    by (simp add: comp_def)
  have "\<not> recording (initialPage (envAt 0)) \<and>
     startedPage = startRecording (envAt 0) (Some ''s1'') (initialPage (envAt 0)) \<and>
     length (outbox startedPage) = 2"
    by (simp add: startedPage_def initialPage_def envAt_def startRecording_def
          startNewSegment_def)
  with m show ?thesis by simp
qed

text \<open>
  C4 as amended. From a start of recording on, over any sequence of events and timer
  callbacks without a start or stop command: the segment ids of the payloads sent
  never decrease, their successive distinct values are strictly increasing, and the
  ids of the terminal payloads are strictly increasing; all lie between 1 and the
  current segment id. Entering idle, by the idle check once the threshold has passed
  or by the page becoming hidden, sends one terminal payload under the unchanged
  segment id (when a session id is set and the runtime is reachable), and while the
  page is idle neither sends another. A wake (\<open>touchInteraction\<close> while idle)
  increments the segment id, empties the four buffers and resets the three
  timestamp trackers (the last scroll position is kept); a click, key or scroll
  event that wakes the page is buffered after that, as the only record of the four
  buffers. Its delta is what the cleared tracker gives: \<open>null\<close> for a click and for
  a scroll sample; for a keydown \<open>null\<close> too, unless the field id is the name of a
  property that the empty tracker object inherits, in which case it is \<open>NaN\<close>.
\<close>

theorem segment_ids_of_flushes:
  "(\<not> recording s0 \<and> list_all (\<lambda>x. \<not> isCommand x) evs \<longrightarrow>
      segmentId (startRecording e0 sid s0) = 1 \<and>
      sorted (map m_segmentId
        (flushesSince (length (outbox (startRecording e0 sid s0)))
           (runPage evs (startRecording e0 sid s0)))) \<and>
      sorted_wrt (<) (remdups_adj (map m_segmentId
        (flushesSince (length (outbox (startRecording e0 sid s0)))
           (runPage evs (startRecording e0 sid s0))))) \<and>
      sorted_wrt (<) (map m_segmentId (filter m_isSegmentEnd
        (flushesSince (length (outbox (startRecording e0 sid s0)))
           (runPage evs (startRecording e0 sid s0))))) \<and>
      (\<forall>t \<in> set (flushesSince (length (outbox (startRecording e0 sid s0)))
                   (runPage evs (startRecording e0 sid s0))).
         1 \<le> m_segmentId t \<and> m_segmentId t \<le> segmentId (runPage evs (startRecording e0 sid s0)))) \<and>
   (recording s \<and> \<not> isIdle s \<and> truthySession (sessionId s) \<and> runtime e = RuntimeOk \<longrightarrow>
      m_isSegmentEnd (buildPayload e True s) \<and> m_segmentId (buildPayload e True s) = segmentId s \<and>
      (IDLE_THRESHOLD_MS \<le> perfNow e - lastInteractionTime s \<longrightarrow>
         isIdle (checkIdle e s) \<and> segmentId (checkIdle e s) = segmentId s \<and>
         outbox (checkIdle e s) = outbox s @ [Telemetry (buildPayload e True s)]) \<and>
      (hidden e \<longrightarrow>
         isIdle (handleVisibilityChange e s) \<and>
         segmentId (handleVisibilityChange e s) = segmentId s \<and>
         outbox (handleVisibilityChange e s) = outbox s @ [Telemetry (buildPayload e True s)])) \<and>
   (isIdle s \<longrightarrow>
      outbox (checkIdle e s) = outbox s \<and> outbox (handleVisibilityChange e s) = outbox s \<and>
      segmentId (touchInteraction e s) = segmentId s + 1 \<and>
      \<not> isIdle (touchInteraction e s) \<and>
      mouseBuffer (touchInteraction e s) = [] \<and> clickBuffer (touchInteraction e s) = [] \<and>
      keystrokeBuffer (touchInteraction e s) = [] \<and> scrollBuffer (touchInteraction e s) = [] \<and>
      lastClickTimestamp (touchInteraction e s) = None \<and>
      lastKeyTimestampByField (touchInteraction e s) = [] \<and>
      lastScrollTimestamp (touchInteraction e s) = None \<and>
      lastScrollX (touchInteraction e s) = lastScrollX s \<and>
      lastScrollY (touchInteraction e s) = lastScrollY s) \<and>
   (recording s \<and> isIdle s \<and> listening s \<longrightarrow>
      segmentId (dispatch (e, MouseMove mev) s) = segmentId s + 1 \<and>
      mouseBuffer (dispatch (e, MouseMove mev) s) = [] \<and>
      clickBuffer (dispatch (e, MouseMove mev) s) = [] \<and>
      keystrokeBuffer (dispatch (e, MouseMove mev) s) = [] \<and>
      scrollBuffer (dispatch (e, MouseMove mev) s) = [] \<and>
      segmentId (dispatch (e, Click cev) s) = segmentId s + 1 \<and>
      mouseBuffer (dispatch (e, Click cev) s) = [] \<and>
      map cr_dt_since_last (clickBuffer (dispatch (e, Click cev) s)) = [None] \<and>
      keystrokeBuffer (dispatch (e, Click cev) s) = [] \<and>
      scrollBuffer (dispatch (e, Click cev) s) = [] \<and>
      segmentId (dispatch (e, KeyDown kev) s) = segmentId s + 1 \<and>
      mouseBuffer (dispatch (e, KeyDown kev) s) = [] \<and>
      clickBuffer (dispatch (e, KeyDown kev) s) = [] \<and>
      (\<exists>r. keystrokeBuffer (dispatch (e, KeyDown kev) s) = [r] \<and>
           kr_dt_since_last r =
             (if kr_field r \<in> set objectPrototypeProperties then DeltaNaN else DeltaNull)) \<and>
      scrollBuffer (dispatch (e, KeyDown kev) s) = [] \<and>
      segmentId (dispatch (e, KeyUp kev) s) = segmentId s + 1 \<and>
      mouseBuffer (dispatch (e, KeyUp kev) s) = [] \<and>
      clickBuffer (dispatch (e, KeyUp kev) s) = [] \<and>
      length (keystrokeBuffer (dispatch (e, KeyUp kev) s)) = 1 \<and>
      scrollBuffer (dispatch (e, KeyUp kev) s) = [] \<and>
      segmentId (dispatch (e, Scroll) s) = segmentId s + 1 \<and>
      mouseBuffer (dispatch (e, Scroll) s) = [] \<and>
      clickBuffer (dispatch (e, Scroll) s) = [] \<and>
      keystrokeBuffer (dispatch (e, Scroll) s) = [] \<and>
      map sr_dt_since_last (scrollBuffer (dispatch (e, Scroll) s)) = [None])"
proof (intro conjI impI)
  assume a: "\<not> recording s0 \<and> list_all (\<lambda>x. \<not> isCommand x) evs"
  let ?s1 = "startRecording e0 sid s0"
  from a show "segmentId ?s1 = 1"
    by (simp add: startRecording_def startNewSegment_def Let_def split: runtimeStatus.split)
  from a have "flushInv (length (outbox ?s1)) (runPage evs ?s1)"
    by (intro flushInv_run flushInv_start) simp_all
  then show so: "sorted (map m_segmentId (flushesSince (length (outbox ?s1)) (runPage evs ?s1)))"
    and "sorted_wrt (<) (map m_segmentId (filter m_isSegmentEnd
          (flushesSince (length (outbox ?s1)) (runPage evs ?s1))))"
    and "\<forall>t \<in> set (flushesSince (length (outbox ?s1)) (runPage evs ?s1)).
         1 \<le> m_segmentId t \<and> m_segmentId t \<le> segmentId (runPage evs ?s1)"
    by (simp_all add: flushInv_def)
  from so show "sorted_wrt (<) (remdups_adj (map m_segmentId
      (flushesSince (length (outbox ?s1)) (runPage evs ?s1))))"
    by (rule strict_remdups_adj)
next
  assume a: "recording s \<and> \<not> isIdle s \<and> truthySession (sessionId s) \<and> runtime e = RuntimeOk"
  show "m_isSegmentEnd (buildPayload e True s)" "m_segmentId (buildPayload e True s) = segmentId s"
    by (simp_all add: buildPayload_def)
  {
    assume "IDLE_THRESHOLD_MS \<le> perfNow e - lastInteractionTime s"
    with a show "isIdle (checkIdle e s)" "segmentId (checkIdle e s) = segmentId s"
      "outbox (checkIdle e s) = outbox s @ [Telemetry (buildPayload e True s)]"
      by (simp_all add: checkIdle_def Let_def endCurrentSegment_def flushBuffers_eq
            spliceAll_def buildPayload_def)
  }
  {
    assume "hidden e"
    with a show "isIdle (handleVisibilityChange e s)"
      "segmentId (handleVisibilityChange e s) = segmentId s"
      "outbox (handleVisibilityChange e s) = outbox s @ [Telemetry (buildPayload e True s)]"
      by (simp_all add: handleVisibilityChange_def Let_def endCurrentSegment_def flushBuffers_eq
            spliceAll_def buildPayload_def)
  }
next
  assume a: "isIdle s"
  then show "outbox (checkIdle e s) = outbox s" "outbox (handleVisibilityChange e s) = outbox s"
    by (simp_all add: checkIdle_def handleVisibilityChange_def Let_def)
  from a show "segmentId (touchInteraction e s) = segmentId s + 1"
    "\<not> isIdle (touchInteraction e s)"
    "mouseBuffer (touchInteraction e s) = []" "clickBuffer (touchInteraction e s) = []"
    "keystrokeBuffer (touchInteraction e s) = []" "scrollBuffer (touchInteraction e s) = []"
    "lastClickTimestamp (touchInteraction e s) = None"
    "lastKeyTimestampByField (touchInteraction e s) = []"
    "lastScrollTimestamp (touchInteraction e s) = None"
    "lastScrollX (touchInteraction e s) = lastScrollX s"
    "lastScrollY (touchInteraction e s) = lastScrollY s"
    by (simp_all add: touchInteraction_def startNewSegment_def Let_def)
next
  assume a: "recording s \<and> isIdle s \<and> listening s"
  then have t: "\<not> isIdle (touchInteraction e s)" "lastClickTimestamp (touchInteraction e s) = None"
    "lastKeyTimestampByField (touchInteraction e s) = []"
    "lastScrollTimestamp (touchInteraction e s) = None"
    "mouseBuffer (touchInteraction e s) = []"
    "clickBuffer (touchInteraction e s) = []" "keystrokeBuffer (touchInteraction e s) = []"
    "scrollBuffer (touchInteraction e s) = []"
    "segmentId (touchInteraction e s) = segmentId s + 1"
    by (simp_all add: touchInteraction_def startNewSegment_def Let_def)
  from a show "segmentId (dispatch (e, MouseMove mev) s) = segmentId s + 1"
    "mouseBuffer (dispatch (e, MouseMove mev) s) = []"
    "clickBuffer (dispatch (e, MouseMove mev) s) = []"
    "keystrokeBuffer (dispatch (e, MouseMove mev) s) = []"
    "scrollBuffer (dispatch (e, MouseMove mev) s) = []"
    by (simp_all add: handleMouseMove_def touchInteraction_def startNewSegment_def Let_def)
  from a t show "segmentId (dispatch (e, Click cev) s) = segmentId s + 1"
    "mouseBuffer (dispatch (e, Click cev) s) = []"
    "map cr_dt_since_last (clickBuffer (dispatch (e, Click cev) s)) = [None]"
    "keystrokeBuffer (dispatch (e, Click cev) s) = []"
    "scrollBuffer (dispatch (e, Click cev) s) = []"
    by (simp_all add: handleClick_def Let_def)
  from a t show "segmentId (dispatch (e, KeyDown kev) s) = segmentId s + 1"
    "mouseBuffer (dispatch (e, KeyDown kev) s) = []"
    "clickBuffer (dispatch (e, KeyDown kev) s) = []"
    "\<exists>r. keystrokeBuffer (dispatch (e, KeyDown kev) s) = [r] \<and>
           kr_dt_since_last r =
             (if kr_field r \<in> set objectPrototypeProperties then DeltaNaN else DeltaNull)"
    "scrollBuffer (dispatch (e, KeyDown kev) s) = []"
    by (simp_all add: handleKeyDown_def readField_def Let_def)
  from a t show "segmentId (dispatch (e, KeyUp kev) s) = segmentId s + 1"
    "mouseBuffer (dispatch (e, KeyUp kev) s) = []"
    "clickBuffer (dispatch (e, KeyUp kev) s) = []"
    "length (keystrokeBuffer (dispatch (e, KeyUp kev) s)) = 1"
    "scrollBuffer (dispatch (e, KeyUp kev) s) = []"
    by (simp_all add: handleKeyUp_def Let_def)
  from a t show "segmentId (dispatch (e, Scroll) s) = segmentId s + 1"
    "mouseBuffer (dispatch (e, Scroll) s) = []"
    "clickBuffer (dispatch (e, Scroll) s) = []"
    "keystrokeBuffer (dispatch (e, Scroll) s) = []"
    "map sr_dt_since_last (scrollBuffer (dispatch (e, Scroll) s)) = [None]"
    by (simp_all add: handleScroll_def Let_def)
qed

theorem segment_ids_of_flushes_witness:
  "\<not> recording (initialPage (envAt 0)) \<and> list_all (\<lambda>x. \<not> isCommand x) twoSegments \<and>
   map (\<lambda>t. (m_segmentId t, m_isSegmentEnd t, length (m_clicks t)))
     (flushesSince 2 (runPage twoSegments startedPage))
     = [(1, False, 1), (1, True, 0), (2, False, 1), (2, True, 0)] \<and>
   sorted_wrt (<) (map m_segmentId (filter m_isSegmentEnd
     (flushesSince (length (outbox startedPage)) (runPage twoSegments startedPage)))) \<and>
   recording clickedPage \<and> \<not> isIdle clickedPage \<and> truthySession (sessionId clickedPage) \<and>
   runtime (envAt 8000) = RuntimeOk \<and>
   IDLE_THRESHOLD_MS \<le> perfNow (envAt 8000) - lastInteractionTime clickedPage \<and>
   isIdle (checkIdle (envAt 8000) clickedPage) \<and>
   outbox (checkIdle (envAt 8000) clickedPage)
     = outbox clickedPage @ [Telemetry (buildPayload (envAt 8000) True clickedPage)] \<and>
   listening (checkIdle (envAt 8000) clickedPage) \<and>
   segmentId (dispatch (envAt 9000, Click exampleClick) (checkIdle (envAt 8000) clickedPage)) = 2 \<and>
   map cr_dt_since_last
     (clickBuffer (dispatch (envAt 9000, Click exampleClick) (checkIdle (envAt 8000) clickedPage)))
     = [None]"
proof -
  have h0: "\<not> recording (initialPage (envAt 0)) \<and> list_all (\<lambda>x. \<not> isCommand x) twoSegments"
    by (simp add: initialPage_def twoSegments_def periodicThenIdle_def)
  have sp: "startRecording (envAt 0) (Some ''s1'') (initialPage (envAt 0)) = startedPage"
    by (simp add: startedPage_def)
  have h1: "recording clickedPage \<and> \<not> isIdle clickedPage \<and> truthySession (sessionId clickedPage) \<and>
      runtime (envAt 8000) = RuntimeOk \<and>
      IDLE_THRESHOLD_MS \<le> perfNow (envAt 8000) - lastInteractionTime clickedPage"
    by (simp add: IDLE_THRESHOLD_MS_def page_defs)
  note th = segment_ids_of_flushes
      [where ?s0.0 = "initialPage (envAt 0)" and ?e0.0 = "envAt 0" and sid = "Some ''s1''"
         and evs = twoSegments and s = clickedPage and e = "envAt 8000"]
  from th [THEN conjunct1] h0
  have A: "sorted_wrt (<) (map m_segmentId (filter m_isSegmentEnd
     (flushesSince (length (outbox startedPage)) (runPage twoSegments startedPage))))"
    by (simp add: sp)
  from th [THEN conjunct2, THEN conjunct1] h1
  have B: "isIdle (checkIdle (envAt 8000) clickedPage) \<and>
     outbox (checkIdle (envAt 8000) clickedPage)
       = outbox clickedPage @ [Telemetry (buildPayload (envAt 8000) True clickedPage)]"
    by simp
  from segment_ids_of_flushes
      [where s = "checkIdle (envAt 8000) clickedPage" and e = "envAt 9000"
         and cev = exampleClick, THEN conjunct2, THEN conjunct2, THEN conjunct2]
    idlePage_eval
  have D: "segmentId (dispatch (envAt 9000, Click exampleClick)
              (checkIdle (envAt 8000) clickedPage)) = 2 \<and>
     map cr_dt_since_last (clickBuffer (dispatch (envAt 9000, Click exampleClick)
       (checkIdle (envAt 8000) clickedPage))) = [None]"
    by simp
  from h0 h1 A B D twoSegments_eval idlePage_eval show ?thesis
    by simp
qed

subsection \<open>C9: the delta of a click\<close>

lemma flushBuffers_lastClick [simp]:
  "lastClickTimestamp (flushBuffers e b s) = lastClickTimestamp s"
  "segmentId (flushBuffers e b s) = segmentId s"
  by (simp_all add: flushBuffers_eq spliceAll_def clearTimers_def split: runtimeStatus.split)

lemma touch_lastClick:
  "lastClickTimestamp (touchInteraction e s) = (if isIdle s then None else lastClickTimestamp s)"
  "segmentId (touchInteraction e s) = (if isIdle s then segmentId s + 1 else segmentId s)"
  "isIdle (touchInteraction e s) = False"
  by (simp_all add: touchInteraction_def startNewSegment_def Let_def)

lemma dispatch_lastClick:
  "lastClickTimestamp (dispatch x s) =
     (if recordedClick x s then Some (perfNow (fst x))
      else if startsSegment x s then None else lastClickTimestamp s)"
proof (cases x)
  case (Pair e ev)
  show ?thesis
  proof (cases ev)
    case (StartRecordingMsg sid)
    with Pair show ?thesis
      by (simp add: startsSegment_def startRecording_def startNewSegment_def Let_def
            split: runtimeStatus.split)
  next
    case StopRecordingMsg
    with Pair show ?thesis
      by (simp add: startsSegment_def stopRecording_eq clearTimers_def)
  next
    case GetStatusMsg
    with Pair show ?thesis
      by (simp add: startsSegment_def getStatus_def split: runtimeStatus.split)
  next
    case (MouseMove m)
    with Pair show ?thesis
      by (simp add: startsSegment_def handleMouseMove_def touchInteraction_def
            startNewSegment_def Let_def)
  next
    case (Click c)
    with Pair show ?thesis
      by (simp add: startsSegment_def handleClick_def touch_lastClick Let_def)
  next
    case (KeyDown k)
    with Pair show ?thesis
      by (simp add: startsSegment_def handleKeyDown_def touch_lastClick Let_def)
  next
    case (KeyUp k)
    with Pair show ?thesis
      by (simp add: startsSegment_def handleKeyUp_def touch_lastClick Let_def)
  next
    case Scroll
    with Pair show ?thesis
      by (simp add: startsSegment_def handleScroll_def touch_lastClick Let_def)
  next
    case VisibilityChange
    with Pair show ?thesis
      by (simp add: startsSegment_def handleVisibilityChange_def endCurrentSegment_def Let_def)
  next
    case SampleTick
    with Pair show ?thesis
      by (simp add: startsSegment_def sampleMousePosition_def split: option.split)
  next
    case FlushTick
    with Pair show ?thesis
      by (simp add: startsSegment_def periodicFlush_def Let_def)
  next
    case IdleTick
    with Pair show ?thesis
      by (simp add: startsSegment_def checkIdle_def endCurrentSegment_def Let_def)
  qed
qed

lemma run_lastClick:
  "lastClickTimestamp (runPage evs s) = prevClick evs s (lastClickTimestamp s)"
  unfolding runPage_def
  by (induction evs arbitrary: s) (simp_all add: dispatch_lastClick)

text \<open>
  C9: after any sequence of events, the tracker \<open>lastClickTimestamp\<close> is the time of
  the latest recorded click of the current segment, or \<open>null\<close> if the segment has
  none: no handler other than \<open>handleClick\<close> and the start of a segment changes it,
  a flush in particular leaves it. So a click recorded after any events from the
  injected script on is appended with \<open>dt_since_last\<close> null when the current segment
  has no earlier click (also when this click starts the segment by waking the page),
  and otherwise the time since the previous click of the segment. After a start of
  recording, clicks at 100 ms and 350 ms are stored with \<open>null\<close> and \<open>250\<close>.
\<close>

theorem click_dt_since_last:
  "lastClickTimestamp (runPage evs s) = prevClick evs s (lastClickTimestamp s) \<and>
   lastClickTimestamp (runPage evs (initialPage e0)) = prevClick evs (initialPage e0) None \<and>
   (recordedClick (e, Click ev) (runPage evs (initialPage e0)) \<longrightarrow>
      (\<exists>r. clickBuffer (dispatch (e, Click ev) (runPage evs (initialPage e0))) =
              (if isIdle (runPage evs (initialPage e0)) then []
               else clickBuffer (runPage evs (initialPage e0))) @ [r] \<and>
           cr_t r = perfNow e \<and>
           cr_dt_since_last r =
             (case (if isIdle (runPage evs (initialPage e0)) then None
                    else prevClick evs (initialPage e0) None) of
                None \<Rightarrow> None | Some l \<Rightarrow> Some (perfNow e - l)))) \<and>
   (recording s \<longrightarrow>
      (\<exists>r. clickBuffer (handleClick e ev s) = (if isIdle s then [] else clickBuffer s) @ [r] \<and>
           cr_t r = perfNow e \<and>
           cr_dt_since_last r =
             (case (if isIdle s then None else lastClickTimestamp s) of
                None \<Rightarrow> None | Some l \<Rightarrow> Some (perfNow e - l))) \<and>
      lastClickTimestamp (handleClick e ev s) = Some (perfNow e)) \<and>
   lastClickTimestamp (startNewSegment e s) = None \<and>
   map cr_dt_since_last
     (clickBuffer (runPage [(envAt 0, StartRecordingMsg sid),
                            (envAt 100, Click ev), (envAt 350, Click ev')] (initialPage e0)))
     = [None, Some 250]"
proof (intro conjI impI)
  show a: "lastClickTimestamp (runPage evs s) = prevClick evs s (lastClickTimestamp s)"
    by (rule run_lastClick)
  have i: "lastClickTimestamp (initialPage e0) = None"
    by (simp add: initialPage_def)
  show b: "lastClickTimestamp (runPage evs (initialPage e0)) = prevClick evs (initialPage e0) None"
    using run_lastClick [of evs "initialPage e0"] i by simp
  {
    assume r: "recordedClick (e, Click ev) (runPage evs (initialPage e0))"
    let ?S = "runPage evs (initialPage e0)"
    from r have "listening ?S" "recording ?S" by simp_all
    then show "\<exists>r. clickBuffer (dispatch (e, Click ev) ?S) =
              (if isIdle ?S then [] else clickBuffer ?S) @ [r] \<and>
           cr_t r = perfNow e \<and>
           cr_dt_since_last r =
             (case (if isIdle ?S then None else prevClick evs (initialPage e0) None) of
                None \<Rightarrow> None | Some l \<Rightarrow> Some (perfNow e - l))"
      using b
      by (simp add: handleClick_def touchInteraction_def startNewSegment_def Let_def
            split: option.split)
  }
  {
    assume "recording s"
    then show "\<exists>r. clickBuffer (handleClick e ev s) = (if isIdle s then [] else clickBuffer s) @ [r] \<and>
           cr_t r = perfNow e \<and>
           cr_dt_since_last r =
             (case (if isIdle s then None else lastClickTimestamp s) of
                None \<Rightarrow> None | Some l \<Rightarrow> Some (perfNow e - l))"
      and "lastClickTimestamp (handleClick e ev s) = Some (perfNow e)"
      by (simp_all add: handleClick_def touchInteraction_def startNewSegment_def Let_def
            split: option.split)
  }
  show "lastClickTimestamp (startNewSegment e s) = None"
    by (simp add: startNewSegment_def)
  show "map cr_dt_since_last
     (clickBuffer (runPage [(envAt 0, StartRecordingMsg sid),
                            (envAt 100, Click ev), (envAt 350, Click ev')] (initialPage e0)))
     = [None, Some 250]"
    by (simp add: handleClick_def touchInteraction_def startNewSegment_def Let_def runPage_def
        startRecording_def initialPage_def envAt_def split: option.split runtimeStatus.split)
qed

lemma clickThenFlush_eval:
  "recording (runPage clickThenFlush (initialPage (envAt 0))) \<and>
   listening (runPage clickThenFlush (initialPage (envAt 0))) \<and>
   \<not> isIdle (runPage clickThenFlush (initialPage (envAt 0))) \<and>
   clickBuffer (runPage clickThenFlush (initialPage (envAt 0))) = [] \<and>
   prevClick clickThenFlush (initialPage (envAt 0)) None = Some 100"
  by (simp add: clickThenFlush_def startsSegment_def tick_defs)

theorem click_dt_since_last_witness:
  "recordedClick (envAt 5200, Click exampleClick) (runPage clickThenFlush (initialPage (envAt 0))) \<and>
   clickBuffer (runPage clickThenFlush (initialPage (envAt 0))) = [] \<and>
   prevClick clickThenFlush (initialPage (envAt 0)) None = Some 100 \<and>
   map cr_dt_since_last
     (clickBuffer (dispatch (envAt 5200, Click exampleClick)
                     (runPage clickThenFlush (initialPage (envAt 0)))))
     = [Some 5100]"
proof -
  have r: "recordedClick (envAt 5200, Click exampleClick)
             (runPage clickThenFlush (initialPage (envAt 0)))"
    using clickThenFlush_eval by simp
  from click_dt_since_last
         [where evs = clickThenFlush and ?e0.0 = "envAt 0" and e = "envAt 5200"
            and ev = exampleClick, THEN conjunct2, THEN conjunct2, THEN conjunct1] r
  obtain c where c: "clickBuffer (dispatch (envAt 5200, Click exampleClick)
          (runPage clickThenFlush (initialPage (envAt 0)))) =
        (if isIdle (runPage clickThenFlush (initialPage (envAt 0))) then []
         else clickBuffer (runPage clickThenFlush (initialPage (envAt 0)))) @ [c]"
    and d: "cr_dt_since_last c =
        (case (if isIdle (runPage clickThenFlush (initialPage (envAt 0))) then None
               else prevClick clickThenFlush (initialPage (envAt 0)) None) of
           None \<Rightarrow> None | Some l \<Rightarrow> Some (perfNow (envAt 5200) - l))"
    by blast
  from c d clickThenFlush_eval r show ?thesis
    by (simp add: envAt_def)
qed

section \<open>Properties of the background worker\<close>

subsection \<open>Where stored fragments come from\<close>

lemma storedFragments_update:
  "set (storedFragments (AList.update k v xs)) \<subseteq> set (storedFragments xs) \<union> set (segments v)"
  by (induction xs) (auto simp: storedFragments_def)

lemma storedFragments_lookup:
  "map_of xs k = Some v \<Longrightarrow> set (segments v) \<subseteq> set (storedFragments xs)"
  by (induction xs) (auto simp: storedFragments_def split: if_splits)

lemma restoreState_frag [simp]:
  "writeQueue (restoreState st) = writeQueue st"
  "inflight (restoreState st) = inflight st"
  "localSessions (restoreState st) = localSessions st"
  by (simp_all add: restoreState_def Let_def split: option.split)

lemma allFragments_restoreState [simp]: "allFragments (restoreState st) = allFragments st"
  by (simp add: allFragments_def getSessions_def)

lemma segHasData_tab [simp]: "segHasData (segmentOf (d\<lparr> m_tabId := t \<rparr>)) = segHasData (segmentOf d)"
  by (simp add: segHasData_def segmentOf_def)

lemma handleMessage_fragments:
  "set (allFragments (snd (handleMessage x msg st)))
     \<subseteq> set (allFragments st) \<union> set (delivered (Deliver msg))"
proof (cases msg)
  case (FromPage tab m)
  then show ?thesis
    by (cases m)
       (auto simp: handleMessage_def storeTelemetry_def storePageMeta_def enqueueWrite_def
             allFragments_def getSessions_def Let_def)
next
  case PopupGetStatus
  then show ?thesis by (simp add: handleMessage_def Let_def)
next
  case PopupExport
  then show ?thesis by (simp add: handleMessage_def Let_def)
next
  case PopupClear
  then show ?thesis
    by (auto simp: handleMessage_def clearData_def persistCounters_def allFragments_def
          getSessions_def storedFragments_def Let_def)
qed

lemma opStart_fragments:
  "opStart st = Some st' \<Longrightarrow> set (allFragments st') \<subseteq> set (allFragments st)"
  by (auto simp: opStart_def allFragments_def getSessions_def split: option.splits list.splits)

lemma opFinish_fragments:
  assumes "opFinish now ok st = Some st'"
  shows "set (allFragments st') \<subseteq> set (allFragments st)"
proof -
  from assms obtain fn snap where inf: "inflight st = Some (fn, snap)"
    by (auto simp: opFinish_def split: option.splits)
  show ?thesis
  proof (cases fn)
    case InitSession
    with assms inf show ?thesis
      using storedFragments_update [of "sessionKey (bg_sessionId st)"
              "\<lparr> startTime = now, segments = [], pageMeta = [] \<rparr>" snap]
      by (auto simp: opFinish_def allFragments_def getSessions_def Let_def split: if_splits)
  next
    case (PushSegment seg)
    show ?thesis
    proof (cases "map_of snap (sessionKey (bg_sessionId st))")
      case None
      with assms inf PushSegment show ?thesis
        by (auto simp: opFinish_def allFragments_def getSessions_def Let_def)
    next
      case (Some session)
      with assms inf PushSegment show ?thesis
        using storedFragments_update [of "sessionKey (bg_sessionId st)"
              "session\<lparr> segments := segments session @ [seg] \<rparr>" snap]
          storedFragments_lookup [OF Some]
        by (auto simp: opFinish_def allFragments_def getSessions_def Let_def persistCounters_def
              split: if_splits)
    qed
  next
    case (PushPageMeta meta)
    show ?thesis
    proof (cases "map_of snap (sessionKey (bg_sessionId st))")
      case None
      with assms inf PushPageMeta show ?thesis
        by (auto simp: opFinish_def allFragments_def getSessions_def Let_def)
    next
      case (Some session)
      with assms inf PushPageMeta show ?thesis
        using storedFragments_update [of "sessionKey (bg_sessionId st)"
              "session\<lparr> pageMeta := pageMeta session @ [meta] \<rparr>" snap]
          storedFragments_lookup [OF Some]
        by (auto simp: opFinish_def allFragments_def getSessions_def Let_def
              split: if_splits)
    qed
  qed
qed

lemma act_fragments:
  "act x a st = Some st' \<Longrightarrow> set (allFragments st') \<subseteq> set (allFragments st) \<union> set (delivered a)"
proof (cases a)
  case (Deliver msg)
  assume "act x a st = Some st'"
  with Deliver handleMessage_fragments [of x msg st] show ?thesis by auto
next
  case OpStart
  assume "act x a st = Some st'"
  with OpStart opStart_fragments [of st st'] show ?thesis by auto
next
  case (OpFinish now ok)
  assume "act x a st = Some st'"
  with OpFinish opFinish_fragments [of now ok st st'] show ?thesis by auto
qed

lemma exec_fragments:
  "exec x acts st = Some st' \<Longrightarrow>
     set (allFragments st') \<subseteq> set (allFragments st) \<union> set (concat (map delivered acts))"
proof (induction acts arbitrary: st)
  case Nil
  then show ?case by simp
next
  case (Cons a acts)
  from Cons.prems obtain st1 where a: "act x a st = Some st1" and r: "exec x acts st1 = Some st'"
    by (auto split: option.splits)
  from act_fragments [OF a] Cons.IH [OF r] show ?case by auto
qed

lemma delivered_hasData: "seg \<in> set (delivered a) \<Longrightarrow> segHasData seg"
  by (induction a rule: delivered.induct) (auto split: if_splits)

lemmas bg_defs =
  exampleCoordinator_def exampleExportEnv_def clickPayload_def emptyTerminalPayload_def
  exampleSchedule_def handleMessage_def restoreState_def storeTelemetry_def
  storePageMeta_def enqueueWrite_def opStart_def opFinish_def persistCounters_def
  segmentOf_def segHasData_def getSessions_def sessionKey_def allFragments_def
  storedFragments_def

lemma exampleSchedule_eval:
  "(case exec exampleExportEnv exampleSchedule exampleCoordinator of
      None \<Rightarrow> False
    | Some st' \<Rightarrow>
        writeQueue st' = [] \<and> inflight st' = None \<and> segmentCount st' = 1 \<and>
        map (\<lambda>p. (fst p, map seg_isSegmentEnd (segments (snd p)))) (getSessions st')
          = [(''s1'', [False])] \<and>
        map seg_isSegmentEnd (allFragments st') = [False] \<and>
        map seg_clicks (allFragments st') =
          [[\<lparr> cr_t = 100, cr_x = 10, cr_y = 20, cr_button = ''left'', cr_target = None,
              cr_dt_since_last = None \<rparr>]])"
  using clickedPage_eval
  by (simp add: bg_defs page_defs)

subsection \<open>C2: export consolidation\<close>

lemma mergeLoop_acc:
  "mergeLoop segs cur (acc @ merged) = acc @ mergeLoop segs cur merged"
  by (induction segs arbitrary: cur merged) (auto split: option.splits)

lemma mergeLoop_acc1:
  "mergeLoop segs cur [c] = c # mergeLoop segs cur []"
  using mergeLoop_acc [of segs cur "[c]" "[]"] by simp

lemma pushInto_id [simp]: "cs_segmentId (pushInto cur seg) = cs_segmentId cur"
  by (simp add: pushInto_def)

lemma mergeLoop_run:
  "mergeLoop fs (Some cur) [] =
     foldl pushInto cur (takeWhile (\<lambda>g. seg_segmentId g = cs_segmentId cur) fs) #
     mergeLoop (dropWhile (\<lambda>g. seg_segmentId g = cs_segmentId cur) fs) None []"
proof (induction fs arbitrary: cur)
  case Nil
  show ?case by simp
next
  case (Cons g gs)
  show ?case
  proof (cases "cs_segmentId cur = seg_segmentId g")
    case True
    with Cons.IH [of "pushInto cur g"] show ?thesis by simp
  next
    case False
    then show ?thesis by (auto simp: mergeLoop_acc1)
  qed
qed

lemma foldl_pushInto:
  "foldl pushInto cur fs =
     cur\<lparr> cs_mouse := cs_mouse cur @ concat (map seg_mouse fs),
          cs_clicks := cs_clicks cur @ concat (map seg_clicks fs),
          cs_keystrokes := cs_keystrokes cur @ concat (map seg_keystrokes fs),
          cs_scroll := cs_scroll cur @ concat (map seg_scroll fs),
          cs_endTime := (if fs = [] then cs_endTime cur else seg_timestamp (last fs)) \<rparr>"
  by (induction fs arbitrary: cur) (auto simp: pushInto_def)

lemma newCurrentSeg_id: "cs_segmentId (newCurrentSeg f) = seg_segmentId f"
  by (simp add: newCurrentSeg_def)

lemma foldl_pushInto_new:
  "foldl pushInto (newCurrentSeg f) fs = mergeRun (f, fs)"
  by (simp add: foldl_pushInto mergeRun_def newCurrentSeg_def)

lemma mergeLoop_runsOf: "mergeLoop frags None [] = map mergeRun (runsOf frags)"
proof (induction frags rule: runsOf.induct)
  case 1
  show ?case by simp
next
  case (2 f fs)
  have "mergeLoop (f # fs) None [] = mergeLoop fs (Some (newCurrentSeg f)) []"
    by simp
  also have "\<dots> = mergeRun (f, takeWhile (\<lambda>g. seg_segmentId g = seg_segmentId f) fs) #
      mergeLoop (dropWhile (\<lambda>g. seg_segmentId g = seg_segmentId f) fs) None []"
    by (simp add: mergeLoop_run foldl_pushInto_new newCurrentSeg_id)
  finally show ?case using "2.IH" by simp
qed

lemma runsOf_concat: "concat (map (\<lambda>r. fst r # snd r) (runsOf frags)) = frags"
  by (induction frags rule: runsOf.induct) simp_all

lemma runsOf_same: "r \<in> set (runsOf frags) \<Longrightarrow> g \<in> set (snd r) \<Longrightarrow> seg_segmentId g = seg_segmentId (fst r)"
proof (induction frags rule: runsOf.induct)
  case 1
  then show ?case by simp
next
  case (2 f fs)
  then show ?case by (auto dest: set_takeWhileD)
qed

lemma runsOf_hd:
  "runsOf frags = r # rs \<Longrightarrow> frags \<noteq> [] \<and> fst r = hd frags"
  by (cases frags) auto

lemma runsOf_adjacent:
  "Suc i < length (runsOf frags) \<Longrightarrow>
     seg_segmentId (fst (runsOf frags ! Suc i)) \<noteq> seg_segmentId (fst (runsOf frags ! i))"
proof (induction frags arbitrary: i rule: runsOf.induct)
  case 1
  then show ?case by simp
next
  case (2 f fs)
  let ?d = "dropWhile (\<lambda>g. seg_segmentId g = seg_segmentId f) fs"
  show ?case
  proof (cases i)
    case 0
    with "2.prems" obtain r rs where rr: "runsOf ?d = r # rs"
      by (cases "runsOf ?d") auto
    from runsOf_hd [OF rr] have "?d \<noteq> []" and "fst r = hd ?d" by auto
    moreover from \<open>?d \<noteq> []\<close> have "seg_segmentId (hd ?d) \<noteq> seg_segmentId f"
      using hd_dropWhile [of "\<lambda>g. seg_segmentId g = seg_segmentId f" fs] by simp
    ultimately show ?thesis using 0 rr by simp
  next
    case (Suc j)
    with "2.prems" "2.IH" [of j] show ?thesis by simp
  qed
qed

lemma runsOf_snoc:
  "frags \<noteq> [] \<Longrightarrow> seg_segmentId g \<noteq> seg_segmentId (last frags) \<Longrightarrow>
     runsOf (frags @ [g]) = runsOf frags @ [(g, [])]"
proof (induction frags rule: runsOf.induct)
  case 1
  then show ?case by simp
next
  case (2 f fs)
  let ?P = "\<lambda>h. seg_segmentId h = seg_segmentId f"
  show ?case
  proof (cases "dropWhile ?P fs = []")
    case True
    then have all: "\<forall>h \<in> set fs. ?P h" by (simp add: dropWhile_eq_Nil_conv)
    then have "seg_segmentId (last (f # fs)) = seg_segmentId f" by (cases "fs = []") auto
    with "2.prems" have ng: "\<not> ?P g" by simp
    from all have t: "takeWhile ?P fs = fs" by simp
    from all ng have l: "runsOf (f # fs @ [g]) = [(f, fs), (g, [])]"
      by (simp add: runsOf.simps)
    have r: "runsOf (f # fs) = [(f, fs)]"
      by (simp only: runsOf.simps t True)
    show ?thesis by (simp only: l r append_Cons append_Nil)
  next
    case False
    then obtain h where h: "h \<in> set fs" "\<not> ?P h"
      by (auto simp: dropWhile_eq_Nil_conv)
    then have tk: "takeWhile ?P (fs @ [g]) = takeWhile ?P fs"
      and dr: "dropWhile ?P (fs @ [g]) = dropWhile ?P fs @ [g]"
      by (simp_all add: takeWhile_append1 dropWhile_append1)
    from False have "fs \<noteq> []" by auto
    have "last (dropWhile ?P fs) = last fs"
      using False by (metis last_appendR takeWhile_dropWhile_id)
    with "2.prems" \<open>fs \<noteq> []\<close> have "seg_segmentId g \<noteq> seg_segmentId (last (dropWhile ?P fs))"
      by simp
    from "2.IH" [OF False this] tk dr show ?thesis by simp
  qed
qed

lemma mergeSegments_snoc:
  "frags \<noteq> [] \<Longrightarrow> seg_segmentId g \<noteq> seg_segmentId (last frags) \<Longrightarrow>
     mergeSegments (frags @ [g]) = mergeSegments frags @ [newCurrentSeg g]"
  by (simp add: mergeSegments_def mergeLoop_runsOf runsOf_snoc mergeRun_def newCurrentSeg_def)

lemma exportDocument_segments:
  "map (\<lambda>p. (fst p, ex_segments (snd p))) (exportDocument st)
     = map (\<lambda>p. (fst p, specConsolidate (segments (snd p)))) (getSessions st)"
  by (simp add: exportDocument_def consolidate_def consolidateSession_def Let_def
        mergeSegments_def mergeLoop_runsOf specConsolidate_def split_def)

text \<open>
  C2: for every stored session the exported segment list is the consolidation the
  specification describes: the fragment list, in arrival order, is cut into maximal
  runs of consecutive fragments with one segment id (the runs put together are the
  list, a run has one id, neighbouring runs have different ids), and each run is
  merged into one segment with the buffers concatenated in order, the first
  timestamp as start and the last as end. A fragment whose id differs from the one
  before it starts a new segment, whatever the order of the two ids. Fragments with
  ids 4 (not terminal), 4 (terminal), 5 (terminal) give two segments: 4, with the
  buffers of both fragments, and 5.
\<close>

theorem consolidation_merges_runs:
  "mergeSegments frags = specConsolidate frags \<and>
   map (\<lambda>p. (fst p, ex_segments (snd p))) (exportDocument st)
     = map (\<lambda>p. (fst p, specConsolidate (segments (snd p)))) (getSessions st) \<and>
   concat (map (\<lambda>r. fst r # snd r) (runsOf frags)) = frags \<and>
   (\<forall>r \<in> set (runsOf frags). \<forall>g \<in> set (snd r). seg_segmentId g = seg_segmentId (fst r)) \<and>
   (\<forall>i. Suc i < length (runsOf frags) \<longrightarrow>
      seg_segmentId (fst (runsOf frags ! Suc i)) \<noteq> seg_segmentId (fst (runsOf frags ! i))) \<and>
   (frags \<noteq> [] \<and> seg_segmentId g \<noteq> seg_segmentId (last frags) \<longrightarrow>
      mergeSegments (frags @ [g]) = mergeSegments frags @ [newCurrentSeg g]) \<and>
   mergeSegments
     [a\<lparr> seg_segmentId := 4, seg_isSegmentEnd := False \<rparr>,
      b\<lparr> seg_segmentId := 4, seg_isSegmentEnd := True \<rparr>,
      c\<lparr> seg_segmentId := 5, seg_isSegmentEnd := True \<rparr>] =
     [\<lparr> cs_segmentId = 4, cs_tabId = seg_tabId a, cs_url = seg_url a,
        cs_hostname = seg_hostname a,
        cs_startTime = seg_timestamp a, cs_endTime = seg_timestamp b,
        cs_mouse = seg_mouse a @ seg_mouse b, cs_clicks = seg_clicks a @ seg_clicks b,
        cs_keystrokes = seg_keystrokes a @ seg_keystrokes b,
        cs_scroll = seg_scroll a @ seg_scroll b \<rparr>,
      \<lparr> cs_segmentId = 5, cs_tabId = seg_tabId c, cs_url = seg_url c,
        cs_hostname = seg_hostname c,
        cs_startTime = seg_timestamp c, cs_endTime = seg_timestamp c,
        cs_mouse = seg_mouse c, cs_clicks = seg_clicks c,
        cs_keystrokes = seg_keystrokes c, cs_scroll = seg_scroll c \<rparr>]"
proof (intro conjI)
  show "mergeSegments frags = specConsolidate frags"
    by (simp add: mergeSegments_def specConsolidate_def mergeLoop_runsOf)
  show "map (\<lambda>p. (fst p, ex_segments (snd p))) (exportDocument st)
     = map (\<lambda>p. (fst p, specConsolidate (segments (snd p)))) (getSessions st)"
    by (rule exportDocument_segments)
  show "concat (map (\<lambda>r. fst r # snd r) (runsOf frags)) = frags"
    by (rule runsOf_concat)
  show "\<forall>r \<in> set (runsOf frags). \<forall>g \<in> set (snd r). seg_segmentId g = seg_segmentId (fst r)"
    using runsOf_same by blast
  show "\<forall>i. Suc i < length (runsOf frags) \<longrightarrow>
      seg_segmentId (fst (runsOf frags ! Suc i)) \<noteq> seg_segmentId (fst (runsOf frags ! i))"
    using runsOf_adjacent by blast
  show "frags \<noteq> [] \<and> seg_segmentId g \<noteq> seg_segmentId (last frags) \<longrightarrow>
      mergeSegments (frags @ [g]) = mergeSegments frags @ [newCurrentSeg g]"
    using mergeSegments_snoc by blast
qed (simp add: mergeSegments_def newCurrentSeg_def pushInto_def)

theorem consolidation_merges_runs_witness:
  "[exampleFragment 4 False 1000, exampleFragment 4 True 2000] \<noteq> [] \<and>
   seg_segmentId (exampleFragment 2 True 3000)
     \<noteq> seg_segmentId (last [exampleFragment 4 False 1000, exampleFragment 4 True 2000]) \<and>
   map (\<lambda>c. (cs_segmentId c, cs_startTime c, cs_endTime c, map cr_t (cs_clicks c)))
     (mergeSegments ([exampleFragment 4 False 1000, exampleFragment 4 True 2000]
                       @ [exampleFragment 2 True 3000]))
     = [(4, 1000, 2000, [1000, 2000]), (2, 3000, 3000, [3000])]"
  using consolidation_merges_runs
          [where frags = "[exampleFragment 4 False 1000, exampleFragment 4 True 2000]"
             and g = "exampleFragment 2 True 3000",
           THEN conjunct2, THEN conjunct2, THEN conjunct2, THEN conjunct2, THEN conjunct2,
           THEN conjunct1]
  by (simp add: exampleFragment_def mergeSegments_def newCurrentSeg_def pushInto_def)

subsection \<open>C5: key names\<close>

lemma redacted_loggable [simp]:
  "redactedKey \<lparr> kr_field = f, kr_type = ty, kr_t = t, kr_dt_since_last = d,
                  kr_key = loggableKey k \<rparr>"
  by (simp add: redactedKey_def loggableKey_def)

lemma keys_startNewSegment: "keysRedacted s \<Longrightarrow> keysRedacted (startNewSegment e s)"
  by (simp add: keysRedacted_def pageKeys_def startNewSegment_def)

lemma keys_field_upd [simp]:
  "keysRedacted (s\<lparr> lastInteractionTime := a \<rparr>) = keysRedacted s"
  "keysRedacted (s\<lparr> isIdle := b \<rparr>) = keysRedacted s"
  "keysRedacted (s\<lparr> lastMouseEvent := c \<rparr>) = keysRedacted s"
  "keysRedacted (s\<lparr> mouseIntervalId := b \<rparr>) = keysRedacted s"
  "keysRedacted (s\<lparr> pageVisible := b \<rparr>) = keysRedacted s"
  "keysRedacted (s\<lparr> lastFlushTime := a \<rparr>) = keysRedacted s"
  by (simp_all add: keysRedacted_def pageKeys_def)

lemma keys_touchInteraction: "keysRedacted s \<Longrightarrow> keysRedacted (touchInteraction e s)"
  by (simp add: touchInteraction_def Let_def keys_startNewSegment)

lemma keys_flushBuffers: "keysRedacted s \<Longrightarrow> keysRedacted (flushBuffers e b s)"
  by (auto simp: flushBuffers_eq keysRedacted_def pageKeys_def spliceAll_def clearTimers_def
        buildPayload_def split: runtimeStatus.split)

lemma keys_stopRecording: "keysRedacted s \<Longrightarrow> keysRedacted (stopRecording e s)"
  by (simp add: stopRecording_eq keysRedacted_def pageKeys_def clearTimers_def)

lemma keys_handleMouseMove: "keysRedacted s \<Longrightarrow> keysRedacted (handleMouseMove e ev s)"
  by (simp add: handleMouseMove_def keys_touchInteraction)

lemma keys_sampleMousePosition: "keysRedacted s \<Longrightarrow> keysRedacted (sampleMousePosition e s)"
  by (simp add: sampleMousePosition_def keysRedacted_def pageKeys_def split: option.split)

lemma keys_handleClick: "keysRedacted s \<Longrightarrow> keysRedacted (handleClick e ev s)"
  using keys_touchInteraction [of s e]
  by (simp add: handleClick_def Let_def keysRedacted_def pageKeys_def)

lemma keys_handleKeyDown: "keysRedacted s \<Longrightarrow> keysRedacted (handleKeyDown e ev s)"
  using keys_touchInteraction [of s e]
  by (simp add: handleKeyDown_def Let_def keysRedacted_def pageKeys_def)

lemma keys_handleKeyUp: "keysRedacted s \<Longrightarrow> keysRedacted (handleKeyUp e ev s)"
  using keys_touchInteraction [of s e]
  by (simp add: handleKeyUp_def Let_def keysRedacted_def pageKeys_def)

lemma keys_handleScroll: "keysRedacted s \<Longrightarrow> keysRedacted (handleScroll e s)"
  using keys_touchInteraction [of s e]
  by (simp add: handleScroll_def Let_def keysRedacted_def pageKeys_def)

lemma keys_endCurrentSegment: "keysRedacted s \<Longrightarrow> keysRedacted (endCurrentSegment e s)"
  by (simp add: endCurrentSegment_def keys_flushBuffers)

lemma keys_handleVisibilityChange:
  "keysRedacted s \<Longrightarrow> keysRedacted (handleVisibilityChange e s)"
  by (simp add: handleVisibilityChange_def Let_def keys_endCurrentSegment)

lemma keys_checkIdle: "keysRedacted s \<Longrightarrow> keysRedacted (checkIdle e s)"
  by (simp add: checkIdle_def Let_def keys_endCurrentSegment)

lemma keys_periodicFlush: "keysRedacted s \<Longrightarrow> keysRedacted (periodicFlush e s)"
  by (simp add: periodicFlush_def Let_def keys_flushBuffers)

lemma keys_startRecording: "keysRedacted s \<Longrightarrow> keysRedacted (startRecording e sid s)"
  by (simp add: startRecording_def startNewSegment_def Let_def keysRedacted_def pageKeys_def
        split: runtimeStatus.split)

lemma keys_getStatus: "keysRedacted s \<Longrightarrow> keysRedacted (getStatus e s)"
  by (simp add: getStatus_def keysRedacted_def pageKeys_def split: runtimeStatus.split)

lemmas keys_handlers =
  keys_startRecording keys_stopRecording keys_getStatus keys_handleMouseMove keys_handleClick
  keys_handleKeyDown keys_handleKeyUp keys_handleScroll keys_handleVisibilityChange
  keys_sampleMousePosition keys_periodicFlush keys_checkIdle

lemma keys_dispatch: "keysRedacted s \<Longrightarrow> keysRedacted (dispatch x s)"
proof (cases x)
  case (Pair e ev)
  assume "keysRedacted s"
  with Pair show ?thesis by (cases ev) (simp_all add: keys_handlers)
qed

lemma keys_runPage: "keysRedacted s \<Longrightarrow> keysRedacted (runPage evs s)"
  unfolding runPage_def by (induction evs arbitrary: s) (simp_all add: keys_dispatch)

lemma loggable_single: "loggableKey [c] = None"
  by (simp add: loggableKey_def LOGGABLE_KEYS_def)

lemma loggable_modifiers:
  "loggableKey ''Shift'' = None \<and> loggableKey ''Control'' = None \<and>
   loggableKey ''Alt'' = None \<and> loggableKey ''Meta'' = None"
  by (simp add: loggableKey_def LOGGABLE_KEYS_def)

lemma fragments_keys:
  assumes "\<forall>seg \<in> set (allFragments st). list_all redactedKey (seg_keystrokes seg)"
    and "exec x acts st = Some st'"
    and "\<forall>a \<in> set acts. \<forall>tab m. a = Deliver (FromPage tab m) \<longrightarrow> list_all redactedKey (messageKeys m)"
  shows "\<forall>seg \<in> set (allFragments st'). list_all redactedKey (seg_keystrokes seg)"
proof
  fix seg assume "seg \<in> set (allFragments st')"
  with exec_fragments [OF assms(2)]
  consider "seg \<in> set (allFragments st)" | a where "a \<in> set acts" "seg \<in> set (delivered a)"
    by auto
  then show "list_all redactedKey (seg_keystrokes seg)"
  proof cases
    case 1
    with assms(1) show ?thesis by blast
  next
    case 2
    from 2(2) obtain tab d where a: "a = Deliver (FromPage tab (Telemetry d))"
      and s: "seg = segmentOf (d\<lparr> m_tabId := tab \<rparr>)"
      by (induction a rule: delivered.induct) (auto split: if_splits)
    from assms(3) 2(1) a have "list_all redactedKey (messageKeys (Telemetry d))" by blast
    with s show ?thesis by (simp add: segmentOf_def)
  qed
qed

text \<open>
  C5: every key record a page has buffered or sent has a key that is \<open>null\<close> or on the
  allow-list, after any sequence of events from the injected script on; keydown and
  keyup each append one record whose key is the event's key if it is on the list and
  \<open>null\<close> otherwise; no single character and none of Shift, Control, Alt, Meta is on
  the list; and the worker stores the key records of the messages it receives as
  they are, so the fragments it holds stay redacted.
\<close>

theorem key_names_redacted:
  "(keysRedacted s \<longrightarrow> keysRedacted (runPage evs s)) \<and>
   keysRedacted (initialPage e0) \<and>
   (recording s \<longrightarrow>
      (\<exists>r. keystrokeBuffer (handleKeyDown e ev s)
              = (if isIdle s then [] else keystrokeBuffer s) @ [r] \<and>
            kr_type r = ''down'' \<and>
            kr_key r = (if ke_key ev \<in> set LOGGABLE_KEYS then Some (ke_key ev) else None)) \<and>
      (\<exists>r. keystrokeBuffer (handleKeyUp e ev s)
              = (if isIdle s then [] else keystrokeBuffer s) @ [r] \<and>
            kr_type r = ''up'' \<and>
            kr_key r = (if ke_key ev \<in> set LOGGABLE_KEYS then Some (ke_key ev) else None))) \<and>
   (\<forall>c. loggableKey [c] = None) \<and>
   loggableKey ''Shift'' = None \<and> loggableKey ''Control'' = None \<and>
   loggableKey ''Alt'' = None \<and> loggableKey ''Meta'' = None \<and>
   ((\<forall>seg \<in> set (allFragments st). list_all redactedKey (seg_keystrokes seg)) \<and>
    exec x acts st = Some st' \<and>
    (\<forall>a \<in> set acts. \<forall>tab m. a = Deliver (FromPage tab m)
        \<longrightarrow> list_all redactedKey (messageKeys m))
      \<longrightarrow> (\<forall>seg \<in> set (allFragments st'). list_all redactedKey (seg_keystrokes seg)))"
proof (intro conjI impI allI)
  show "keysRedacted (initialPage e0)"
    by (simp add: keysRedacted_def pageKeys_def initialPage_def split: runtimeStatus.split)
  show "loggableKey ''Shift'' = None" "loggableKey ''Control'' = None"
    "loggableKey ''Alt'' = None" "loggableKey ''Meta'' = None"
    using loggable_modifiers by simp_all
next
  assume "keysRedacted s" then show "keysRedacted (runPage evs s)" by (rule keys_runPage)
next
  assume "recording s"
  then show "\<exists>r. keystrokeBuffer (handleKeyDown e ev s)
              = (if isIdle s then [] else keystrokeBuffer s) @ [r] \<and>
            kr_type r = ''down'' \<and>
            kr_key r = (if ke_key ev \<in> set LOGGABLE_KEYS then Some (ke_key ev) else None)"
    by (simp add: handleKeyDown_def touchInteraction_def startNewSegment_def Let_def
          loggableKey_def)
next
  assume "recording s"
  then show "\<exists>r. keystrokeBuffer (handleKeyUp e ev s)
              = (if isIdle s then [] else keystrokeBuffer s) @ [r] \<and>
            kr_type r = ''up'' \<and>
            kr_key r = (if ke_key ev \<in> set LOGGABLE_KEYS then Some (ke_key ev) else None)"
    by (simp add: handleKeyUp_def touchInteraction_def startNewSegment_def Let_def
          loggableKey_def)
next
  fix c show "loggableKey [c] = None" by (rule loggable_single)
next
  assume "(\<forall>seg \<in> set (allFragments st). list_all redactedKey (seg_keystrokes seg)) \<and>
    exec x acts st = Some st' \<and>
    (\<forall>a \<in> set acts. \<forall>tab m. a = Deliver (FromPage tab m)
        \<longrightarrow> list_all redactedKey (messageKeys m))"
  then show "\<forall>seg \<in> set (allFragments st'). list_all redactedKey (seg_keystrokes seg)"
    using fragments_keys [of st x acts st'] by blast
qed

lemma exampleKeys_eval:
  "map kr_key (keystrokeBuffer (runPage exampleKeys startedPage))
     = [None, None, Some ''Enter'', None] \<and>
   map kr_dt_since_last (keystrokeBuffer (runPage exampleKeys startedPage))
     = [DeltaNull, DeltaNull, DeltaMs 200, DeltaMs 100]"
  by (simp add: runPage_def exampleKeys_def keyPress_def page_defs handleKeyDown_def
        handleKeyUp_def getFieldId_def loggableKey_def LOGGABLE_KEYS_def readField_def
        writeField_def objectPrototypeProperties_def)

theorem key_names_redacted_witness:
  "keysRedacted startedPage \<and> recording startedPage \<and>
   keysRedacted (runPage exampleKeys startedPage) \<and>
   map kr_key (keystrokeBuffer (runPage exampleKeys startedPage))
     = [None, None, Some ''Enter'', None]"
proof -
  have k: "keysRedacted startedPage \<and> recording startedPage"
    by (simp add: keysRedacted_def pageKeys_def page_defs)
  from key_names_redacted [where s = startedPage and evs = exampleKeys, THEN conjunct1] k
  have "keysRedacted (runPage exampleKeys startedPage)" by simp
  with k exampleKeys_eval show ?thesis by simp
qed

subsection \<open>C6: the write queue\<close>

lemma map_of_update_same: "map_of (AList.update k v xs) k = Some v"
  by (simp add: update_conv')

lemma serving_act:
  assumes "serving sid st" and "isSubmission a \<or> isQueueStep a" and "act x a st = Some st'"
  shows "serving sid st' \<and>
         sessionFragments sid st' @ pendingFragments st'
           = sessionFragments sid st @ pendingFragments st @ delivered a"
proof (cases a)
  case (Deliver msg)
  with assms(2) obtain tab d where m: "msg = FromPage tab (Telemetry d)"
    and h: "segHasData (segmentOf d)"
    by (cases a rule: isSubmission.cases) auto
  from assms(1) have r: "restoreState st = st"
    by (simp add: serving_def restoreState_def)
  from assms(1) have t: "truthySession (bg_sessionId st)" "bg_recording st"
    by (simp_all add: serving_def truthySession_def)
  from assms(3) Deliver m h r t
  have st': "writeQueue st' = writeQueue st @ [PushSegment (segmentOf (d\<lparr> m_tabId := tab \<rparr>))]
      \<and> inflight st' = inflight st \<and> localSessions st' = localSessions st
      \<and> stateRestored st' = stateRestored st \<and> bg_recording st' = bg_recording st
      \<and> bg_sessionId st' = bg_sessionId st"
    by (auto simp: handleMessage_def storeTelemetry_def Let_def enqueueWrite_def)
  then have g: "getSessions st' = getSessions st"
    by (simp add: getSessions_def)
  from st' g assms(1) Deliver m h show ?thesis
    by (auto simp: serving_def sessionFragments_def pendingFragments_def split: option.splits)
next
  case OpStart
  with assms(3) obtain fn rest where q: "writeQueue st = fn # rest" and i: "inflight st = None"
    and st': "st' = st\<lparr> writeQueue := rest, inflight := Some (fn, getSessions st) \<rparr>"
    by (auto simp: opStart_def split: option.splits list.splits)
  with assms(1) OpStart show ?thesis
    by (auto simp: serving_def getSessions_def sessionFragments_def pendingFragments_def)
next
  case (OpFinish now ok)
  with assms(2) have ok: "ok" by simp
  from assms(3) OpFinish obtain fn snap where i: "inflight st = Some (fn, snap)"
    by (auto simp: opFinish_def split: option.splits)
  with assms(1) obtain seg where fn: "fn = PushSegment seg" and snap: "snap = getSessions st"
    by (cases fn) (auto simp: serving_def)
  from assms(1) obtain session where s: "map_of (getSessions st) sid = Some session"
    and k: "sessionKey (bg_sessionId st) = sid"
    by (auto simp: serving_def sessionKey_def)
  let ?session' = "session\<lparr> segments := segments session @ [seg] \<rparr>"
  from assms(3) OpFinish ok i fn snap s k
  have st': "st' = persistCounters
      (st\<lparr> inflight := None, segmentCount := length (segments ?session'),
           localSessions := Some (AList.update sid ?session' (getSessions st)) \<rparr>)"
    by (simp add: opFinish_def Let_def)
  have g: "getSessions st' = AList.update sid ?session' (getSessions st)"
    by (simp add: st' persistCounters_def getSessions_def)
  from assms(1) i fn s OpFinish show ?thesis
    by (simp add: serving_def sessionFragments_def pendingFragments_def g map_of_update_same)
       (simp add: st' persistCounters_def)
qed

lemma serving_exec:
  assumes "serving sid st" and "list_all (\<lambda>a. isSubmission a \<or> isQueueStep a) acts"
    and "exec x acts st = Some st'"
  shows "serving sid st' \<and>
         sessionFragments sid st' @ pendingFragments st'
           = sessionFragments sid st @ pendingFragments st @ concat (map delivered acts)"
  using assms
proof (induction acts arbitrary: st)
  case Nil
  then show ?case by simp
next
  case (Cons a acts)
  from Cons.prems(3) obtain st1 where a: "act x a st = Some st1"
    and r: "exec x acts st1 = Some st'"
    by (auto split: option.splits)
  from Cons.prems(2) have oa: "isSubmission a \<or> isQueueStep a"
    and os: "list_all (\<lambda>a. isSubmission a \<or> isQueueStep a) acts"
    by simp_all
  from serving_act [OF Cons.prems(1) oa a] Cons.IH [OF _ os r] show ?case
    by simp
qed

lemma delivered_count:
  "list_all (\<lambda>a. isSubmission a \<or> isQueueStep a) acts \<Longrightarrow>
     length (concat (map delivered acts)) = length (filter isSubmission acts)"
proof (induction acts)
  case Nil
  then show ?case by simp
next
  case (Cons a acts)
  then show ?case
    by (cases a rule: isSubmission.cases) auto
qed

lemma opFinish_queue:
  "opFinish now ok st = Some st' \<Longrightarrow> writeQueue st' = writeQueue st \<and> inflight st' = None"
  by (auto simp: opFinish_def Let_def persistCounters_def
        split: option.splits writeOp.splits if_splits)

lemma runNext_step:
  assumes "inflight st = None" and "writeQueue st = fn # rest"
  shows "\<exists>st1. opStart st = Some st1 \<and> opFinish now ok st1 = Some (runNext now ok st) \<and>
           writeQueue (runNext now ok st) = rest \<and> inflight (runNext now ok st) = None"
proof -
  from assms have s: "opStart st = Some (st\<lparr> writeQueue := rest, inflight := Some (fn, getSessions st) \<rparr>)"
    by (simp add: opStart_def)
  obtain st2 where f: "opFinish now ok (st\<lparr> writeQueue := rest, inflight := Some (fn, getSessions st) \<rparr>) = Some st2"
    by (cases "opFinish now ok (st\<lparr> writeQueue := rest, inflight := Some (fn, getSessions st) \<rparr>)")
       (auto simp: opFinish_def Let_def)
  from s f have r: "runNext now ok st = st2"
    by (simp add: runNext_def)
  from opFinish_queue [OF f] s f r show ?thesis by simp
qed

lemma drain_funpow:
  "inflight st = None \<Longrightarrow> length (writeQueue st) = n \<Longrightarrow>
     exec x (concat (replicate n [OpStart, OpFinish now True])) st
       = Some ((runNext now True ^^ n) st) \<and>
     writeQueue ((runNext now True ^^ n) st) = [] \<and>
     inflight ((runNext now True ^^ n) st) = None"
proof (induction n arbitrary: st)
  case 0
  then show ?case by simp
next
  case (Suc n)
  then obtain fn rest where q: "writeQueue st = fn # rest" and l: "length rest = n"
    by (cases "writeQueue st") auto
  from runNext_step [OF Suc.prems(1) q, of now True]
  obtain st1 where a: "opStart st = Some st1"
    and b: "opFinish now True st1 = Some (runNext now True st)"
    and c: "writeQueue (runNext now True st) = rest"
    and d: "inflight (runNext now True st) = None"
    by blast
  from Suc.IH [OF d, of ] c l a b show ?case
    by (simp add: funpow_swap1)
qed

lemma fold_const_funpow: "fold (\<lambda>_. f) xs s = (f ^^ length xs) s"
  by (induction xs arbitrary: s) (simp_all add: funpow_swap1)

lemma drainQueue_exec:
  "inflight st = None \<Longrightarrow>
     exec x (concat (replicate (length (writeQueue st)) [OpStart, OpFinish now True])) st
       = Some (drainQueue now st) \<and>
     writeQueue (drainQueue now st) = [] \<and> inflight (drainQueue now st) = None"
  using drain_funpow [of st "length (writeQueue st)" x now]
  by (simp add: drainQueue_def fold_const_funpow)

text \<open>
  C6 as stated fails: the worker appends a fragment to its own current session, and
  only while it is recording. Two fragments addressed to the stored session \<open>s0\<close>,
  with \<open>s1\<close> current, leave \<open>s0\<close> with no fragment (both are appended to \<open>s1\<close>);
  and two fragments addressed to the stored session \<open>s1\<close> that arrive after the
  worker has stopped recording are dropped. No write fails in either run.
\<close>

theorem write_queue_counterexample:
  "m_sessionId stalePayload = Some ''s0'' \<and> segHasData (segmentOf stalePayload) \<and>
   map fst (getSessions twoSessionCoordinator) = [''s0'', ''s1''] \<and>
   length (filter isSubmission staleSchedule) = 2 \<and>
   list_all (\<lambda>a. isSubmission a \<or> isQueueStep a) staleSchedule \<and>
   (case exec exampleExportEnv staleSchedule twoSessionCoordinator of
      None \<Rightarrow> False
    | Some st' \<Rightarrow>
        writeQueue st' = [] \<and> inflight st' = None \<and> errorLog st' = [] \<and>
        length (sessionFragments ''s0'' st') = 0 \<and>
        length (sessionFragments ''s1'' st') = 2) \<and>
   m_sessionId clickPayload = Some ''s1'' \<and> segHasData (segmentOf clickPayload) \<and>
   map fst (getSessions stoppedCoordinator) = [''s1''] \<and>
   length (filter isSubmission lateSchedule) = 2 \<and>
   (case exec exampleExportEnv lateSchedule stoppedCoordinator of
      None \<Rightarrow> False
    | Some st' \<Rightarrow>
        writeQueue st' = [] \<and> inflight st' = None \<and> errorLog st' = [] \<and>
        length (sessionFragments ''s1'' st') = 0)"
  using clickedPage_eval
  by (simp add: twoSessionCoordinator_def staleSchedule_def stoppedCoordinator_def
        lateSchedule_def stalePayload_def sessionFragments_def bg_defs page_defs)

text \<open>
  C6 as amended: let the worker be recording, with its current session in the store
  and nothing queued or in flight. Take any interleaving of fragment submissions
  (each with at least one event record, whatever session id it carries) and queue
  steps whose writes succeed, after which the queue is empty and nothing is in
  flight. Then the fragment list of the current session is the list before,
  followed by the submitted fragments in the order of their arrival: its length has
  grown by the number of submissions. An operation can start only when none is in
  flight, and it takes the head of the queue; and from any state with nothing in
  flight the queue can be run to its end.
\<close>

theorem write_queue_no_lost_update:
  "(stateRestored st \<and> bg_recording st \<and> bg_sessionId st = Some sid \<and> sid \<noteq> [] \<and>
    map_of (getSessions st) sid \<noteq> None \<and> writeQueue st = [] \<and> inflight st = None \<and>
    list_all (\<lambda>a. isSubmission a \<or> isQueueStep a) acts \<and>
    exec x acts st = Some st' \<and> writeQueue st' = [] \<and> inflight st' = None
      \<longrightarrow> sessionFragments sid st' = sessionFragments sid st @ concat (map delivered acts) \<and>
          length (sessionFragments sid st')
            = length (sessionFragments sid st) + length (filter isSubmission acts)) \<and>
   (inflight s \<noteq> None \<longrightarrow> act x OpStart s = None) \<and>
   (act x OpStart s = Some s' \<longrightarrow>
      inflight s = None \<and>
      (\<exists>fn rest. writeQueue s = fn # rest \<and> writeQueue s' = rest \<and>
                 inflight s' = Some (fn, getSessions s))) \<and>
   (inflight s = None \<longrightarrow>
      exec x (concat (replicate (length (writeQueue s)) [OpStart, OpFinish now True])) s
        = Some (drainQueue now s) \<and>
      writeQueue (drainQueue now s) = [] \<and> inflight (drainQueue now s) = None)"
proof (intro conjI impI)
  assume a: "stateRestored st \<and> bg_recording st \<and> bg_sessionId st = Some sid \<and> sid \<noteq> [] \<and>
    map_of (getSessions st) sid \<noteq> None \<and> writeQueue st = [] \<and> inflight st = None \<and>
    list_all (\<lambda>a. isSubmission a \<or> isQueueStep a) acts \<and>
    exec x acts st = Some st' \<and> writeQueue st' = [] \<and> inflight st' = None"
  then have sv: "serving sid st"
    by (simp add: serving_def)
  from a have p: "pendingFragments st = []" "pendingFragments st' = []"
    by (simp_all add: pendingFragments_def)
  from serving_exec [OF sv, of acts x st'] a p
  show e: "sessionFragments sid st' = sessionFragments sid st @ concat (map delivered acts)"
    by simp
  from a have "length (concat (map delivered acts)) = length (filter isSubmission acts)"
    by (simp add: delivered_count)
  with e show "length (sessionFragments sid st')
            = length (sessionFragments sid st) + length (filter isSubmission acts)"
    by simp
next
  assume "inflight s \<noteq> None"
  then show "act x OpStart s = None"
    by (auto simp: opStart_def split: option.splits)
next
  assume a: "act x OpStart s = Some s'"
  then show "inflight s = None"
    by (auto simp: opStart_def split: option.splits list.splits)
  from a show "\<exists>fn rest. writeQueue s = fn # rest \<and> writeQueue s' = rest \<and>
                 inflight s' = Some (fn, getSessions s)"
    by (auto simp: opStart_def split: option.splits list.splits)
next
  assume i: "inflight s = None"
  from drainQueue_exec [OF i, of x now]
  show "exec x (concat (replicate (length (writeQueue s)) [OpStart, OpFinish now True])) s
        = Some (drainQueue now s)"
    and "writeQueue (drainQueue now s) = []" and "inflight (drainQueue now s) = None"
    by simp_all
qed

lemma interleavedSchedule_eval:
  "(case exec exampleExportEnv interleavedSchedule exampleCoordinator of
      None \<Rightarrow> False
    | Some st' \<Rightarrow>
        writeQueue st' = [] \<and> inflight st' = None \<and> segmentCount st' = 2 \<and>
        map (\<lambda>f. (seg_tabId f, seg_segmentId f)) (sessionFragments ''s1'' st')
          = [(Some 7, 1), (Some 8, 3)])"
  using clickedPage_eval
  by (simp add: interleavedSchedule_def sessionFragments_def bg_defs page_defs)

theorem write_queue_no_lost_update_witness:
  "stateRestored exampleCoordinator \<and> bg_recording exampleCoordinator \<and>
   bg_sessionId exampleCoordinator = Some ''s1'' \<and>
   sessionFragments ''s1'' exampleCoordinator = [] \<and>
   writeQueue exampleCoordinator = [] \<and> inflight exampleCoordinator = None \<and>
   list_all (\<lambda>a. isSubmission a \<or> isQueueStep a) interleavedSchedule \<and>
   length (filter isSubmission interleavedSchedule) = 2 \<and>
   (\<exists>st'. exec exampleExportEnv interleavedSchedule exampleCoordinator = Some st' \<and>
          writeQueue st' = [] \<and> inflight st' = None \<and>
          length (sessionFragments ''s1'' st') = 2 \<and>
          map seg_tabId (sessionFragments ''s1'' st') = [Some 7, Some 8])"
proof -
  obtain st' where e: "exec exampleExportEnv interleavedSchedule exampleCoordinator = Some st'"
    and q: "writeQueue st' = []" "inflight st' = None"
    and m: "map (\<lambda>f. (seg_tabId f, seg_segmentId f)) (sessionFragments ''s1'' st')
          = [(Some 7, 1), (Some 8, 3)]"
    using interleavedSchedule_eval by (auto split: option.splits)
  have h: "stateRestored exampleCoordinator \<and> bg_recording exampleCoordinator \<and>
      bg_sessionId exampleCoordinator = Some ''s1'' \<and>
      map_of (getSessions exampleCoordinator) ''s1'' \<noteq> None \<and>
      sessionFragments ''s1'' exampleCoordinator = [] \<and>
      writeQueue exampleCoordinator = [] \<and> inflight exampleCoordinator = None"
    by (simp add: exampleCoordinator_def getSessions_def sessionFragments_def)
  have l: "list_all (\<lambda>a. isSubmission a \<or> isQueueStep a) interleavedSchedule \<and>
      length (filter isSubmission interleavedSchedule) = 2"
    using clickedPage_eval
    by (simp add: interleavedSchedule_def clickPayload_def buildPayload_def segmentOf_def
          segHasData_def)
  have ne: "''s1'' \<noteq> []"
    by simp
  from write_queue_no_lost_update
         [where st = exampleCoordinator and sid = "''s1''" and acts = interleavedSchedule
            and x = exampleExportEnv and st' = st', THEN conjunct1] h l e q ne
  have "length (sessionFragments ''s1'' st')
          = length (sessionFragments ''s1'' exampleCoordinator)
            + length (filter isSubmission interleavedSchedule)"
    by blast
  with h l have n: "length (sessionFragments ''s1'' st') = 2"
    by simp
  from m have "map fst (map (\<lambda>f. (seg_tabId f, seg_segmentId f)) (sessionFragments ''s1'' st'))
      = [Some 7, Some 8]"
    by simp
  then have t: "map seg_tabId (sessionFragments ''s1'' st') = [Some 7, Some 8]"
    by (simp add: comp_def)
  from h l e q n t show ?thesis by auto
qed

subsection \<open>C7: status and export after clear\<close>

text \<open>
  With nothing else running in between, the three requests behave as described:
  after the clear request a status query answers with zero for each of the four
  counters and zero segments, and an export request answers with the failure value
  \<open>No data to export\<close>, also when the worker is restarted after the clear.
\<close>

lemma clear_sequential:
  "fst (handleMessage x PopupClear st) = RSuccess \<and>
   localSessions (snd (handleMessage x PopupClear st)) = None \<and>
   (\<exists>r. fst (handleMessage x' PopupGetStatus (snd (handleMessage x PopupClear st))) = RStatus r \<and>
        sr_totalEvents r = \<lparr> c_mouse = 0, c_clicks = 0, c_keystrokes = 0, c_scroll = 0 \<rparr> \<and>
        sr_segmentCount r = 0) \<and>
   fst (handleMessage x'' PopupExport (snd (handleMessage x PopupClear st)))
     = RExport (ExportFailure ''No data to export'') \<and>
   fst (handleMessage x'' PopupExport
          (snd (handleMessage x' PopupGetStatus (snd (handleMessage x PopupClear st)))))
     = RExport (ExportFailure ''No data to export'') \<and>
   (\<exists>r. fst (handleMessage x' PopupGetStatus
               (restartWorker (snd (handleMessage x PopupClear st)))) = RStatus r \<and>
        sr_totalEvents r = \<lparr> c_mouse = 0, c_clicks = 0, c_keystrokes = 0, c_scroll = 0 \<rparr> \<and>
        sr_segmentCount r = 0) \<and>
   fst (handleMessage x'' PopupExport (restartWorker (snd (handleMessage x PopupClear st))))
     = RExport (ExportFailure ''No data to export'')"
  by (simp add: handleMessage_def clearData_def persistCounters_def restoreState_def
        restartWorker_def exportData_def getSessions_def zeroCounters_def Let_def)

text \<open>
  C7 says that after the clear operation has completed, an export returns the
  \<open>no data\<close> failure because all sessions have been erased. \<open>clearData\<close> removes the
  key \<open>sessions\<close> directly, not through \<open>enqueueWrite\<close> as the other writers do. As
  evaluated here, a queued write that has read \<open>sessions\<close> before the clear writes
  them back after it, with its fragment: the session is in the store again, and an
  export after the clear succeeds with that session in its document.
\<close>

theorem clear_undone_by_write_in_flight:
  "map (\<lambda>p. (fst p, length (segments (snd p)))) (getSessions exampleCoordinator)
     = [(''s1'', 0)] \<and>
   (case exec exampleExportEnv clearRaceSchedule exampleCoordinator of
      None \<Rightarrow> False
    | Some st' \<Rightarrow>
        writeQueue st' = [] \<and> inflight st' = None \<and> errorLog st' = [] \<and>
        map (\<lambda>p. (fst p, map seg_clicks (segments (snd p)))) (getSessions st')
          = [(''s1'', [[\<lparr> cr_t = 100, cr_x = 10, cr_y = 20, cr_button = ''left'',
                          cr_target = None, cr_dt_since_last = None \<rparr>]])] \<and>
        fst (handleMessage exampleExportEnv PopupExport st')
          = RExport (ExportSuccess ''telemetry_export.json'') \<and>
        map (\<lambda>p. (fst p, ex_totalSegments (snd p))) (exportDocument st') = [(''s1'', 1)])"
  using clickedPage_eval
  by (simp add: clearRaceSchedule_def clearData_def exportData_def exportDocument_def
        consolidate_def consolidateSession_def mergeSegments_def newCurrentSeg_def
        bg_defs page_defs)

subsection \<open>C8: messages for a missing session\<close>

lemma restoreState_idem [simp]: "restoreState (restoreState st) = restoreState st"
  by (simp add: restoreState_def Let_def)

lemma clearedCoordinator_eval:
  "writeQueue clearedCoordinator = [] \<and> inflight clearedCoordinator = None \<and>
   bg_recording clearedCoordinator \<and> stateRestored clearedCoordinator \<and>
   bg_sessionId clearedCoordinator = Some ''s1'' \<and> localSessions clearedCoordinator = None \<and>
   errorLog clearedCoordinator = []"
  by (simp add: clearedCoordinator_def clearData_def bg_defs)

text \<open>
  C8 as stated fails: the worker never reads the session id a message carries. With
  session \<open>s1\<close> current and stored, a fragment and a page-metadata message that
  carry the id \<open>s0\<close>, which is not in the store, are appended to session \<open>s1\<close>.
\<close>

theorem missing_session_counterexample:
  "m_sessionId stalePayload = Some ''s0'' \<and> pm_sessionId staleMeta = Some ''s0'' \<and>
   map_of (getSessions exampleCoordinator) ''s0'' = None \<and>
   map (\<lambda>p. (fst p, length (segments (snd p)), length (pageMeta (snd p))))
     (getSessions exampleCoordinator) = [(''s1'', 0, 0)] \<and>
   map (\<lambda>p. (fst p, length (segments (snd p)), length (pageMeta (snd p))))
     (getSessions (drainQueue 1700000006000
        (snd (handleMessage exampleExportEnv (FromPage (Some 7) (Telemetry stalePayload))
                exampleCoordinator)))) = [(''s1'', 1, 0)] \<and>
   map (\<lambda>p. (fst p, length (segments (snd p)), length (pageMeta (snd p))))
     (getSessions (drainQueue 1700000006000
        (snd (handleMessage exampleExportEnv (FromPage (Some 7) (PageMeta staleMeta))
                exampleCoordinator)))) = [(''s1'', 0, 1)]"
  using clickedPage_eval
  by (simp add: stalePayload_def staleMeta_def drainQueue_def runNext_def bg_defs page_defs)

text \<open>
  C8 as amended: what decides is the worker's own current session id. A queued
  append that finds no entry for it in the \<open>sessions\<close> it read ends without writing
  and without logging; and when nothing is queued or in flight and the current id
  (after the state has been restored) has no entry in the store, a fragment or a
  page-metadata message is answered with success, and once the queue has run the
  worker is in the state it had, but for the counters a fragment adds to: the
  store, the error log and the queue are as before, so later messages are handled
  as they would have been.
\<close>

theorem missing_session_dropped:
  "(inflight st = Some (fn, snap) \<and> fn \<noteq> InitSession \<and>
    map_of snap (sessionKey (bg_sessionId st)) = None
      \<longrightarrow> opFinish now ok st = Some (st\<lparr> inflight := None \<rparr>)) \<and>
   (writeQueue st = [] \<and> inflight st = None \<and>
    map_of (getSessions st) (sessionKey (bg_sessionId (restoreState st))) = None
      \<longrightarrow> fst (handleMessage x (FromPage tab (Telemetry d)) st) = RSuccess \<and>
          fst (handleMessage x (FromPage tab (PageMeta pm)) st) = RSuccess \<and>
          drainQueue now (snd (handleMessage x (FromPage tab (PageMeta pm)) st))
            = restoreState st \<and>
          drainQueue now (snd (handleMessage x (FromPage tab (Telemetry d)) st))
            = (restoreState st)\<lparr> totalEvents :=
                 totalEvents (snd (handleMessage x (FromPage tab (Telemetry d)) st)) \<rparr>)"
proof (intro conjI impI)
  assume "inflight st = Some (fn, snap) \<and> fn \<noteq> InitSession \<and>
    map_of snap (sessionKey (bg_sessionId st)) = None"
  then show "opFinish now ok st = Some (st\<lparr> inflight := None \<rparr>)"
    by (cases fn) (simp_all add: opFinish_def Let_def)
next
  assume a: "writeQueue st = [] \<and> inflight st = None \<and>
    map_of (getSessions st) (sessionKey (bg_sessionId (restoreState st))) = None"
  show "fst (handleMessage x (FromPage tab (Telemetry d)) st) = RSuccess"
    by (simp add: handleMessage_def Let_def)
  show "fst (handleMessage x (FromPage tab (PageMeta pm)) st) = RSuccess"
    by (simp add: handleMessage_def Let_def)
  have g: "getSessions (restoreState st) = getSessions st"
    by (simp add: getSessions_def)
  show "drainQueue now (snd (handleMessage x (FromPage tab (PageMeta pm)) st)) = restoreState st"
    using a g
    by (simp add: handleMessage_def Let_def storePageMeta_def enqueueWrite_def drainQueue_def
          runNext_def opStart_def opFinish_def getSessions_def)
  show "drainQueue now (snd (handleMessage x (FromPage tab (Telemetry d)) st))
            = (restoreState st)\<lparr> totalEvents :=
                 totalEvents (snd (handleMessage x (FromPage tab (Telemetry d)) st)) \<rparr>"
    using a g
    by (simp add: handleMessage_def Let_def storeTelemetry_def enqueueWrite_def drainQueue_def
          runNext_def opStart_def opFinish_def getSessions_def)
qed

theorem missing_session_dropped_witness:
  "writeQueue clearedCoordinator = [] \<and> inflight clearedCoordinator = None \<and>
   m_sessionId clickPayload = bg_sessionId clearedCoordinator \<and>
   map_of (getSessions clearedCoordinator)
     (sessionKey (bg_sessionId (restoreState clearedCoordinator))) = None \<and>
   localSessions (drainQueue 1700000006000
      (snd (handleMessage exampleExportEnv (FromPage (Some 7) (Telemetry clickPayload))
              clearedCoordinator))) = None \<and>
   errorLog (drainQueue 1700000006000
      (snd (handleMessage exampleExportEnv (FromPage (Some 7) (Telemetry clickPayload))
              clearedCoordinator))) = [] \<and>
   inflight (clearedCoordinator\<lparr> inflight := Some (PushSegment (segmentOf clickPayload), []) \<rparr>)
     = Some (PushSegment (segmentOf clickPayload), []) \<and>
   opFinish 1700000006000 True
     (clearedCoordinator\<lparr> inflight := Some (PushSegment (segmentOf clickPayload), []) \<rparr>)
     = Some clearedCoordinator"
proof -
  have r: "restoreState clearedCoordinator = clearedCoordinator"
    using clearedCoordinator_eval by (simp add: restoreState_def)
  have m: "map_of (getSessions clearedCoordinator)
     (sessionKey (bg_sessionId (restoreState clearedCoordinator))) = None"
    using clearedCoordinator_eval by (simp add: r getSessions_def)
  have p: "m_sessionId clickPayload = bg_sessionId clearedCoordinator"
    using clearedCoordinator_eval clickedPage_eval by (simp add: clickPayload_def buildPayload_def)
  have i: "clearedCoordinator\<lparr> inflight := Some (PushSegment (segmentOf clickPayload), []),
             inflight := None \<rparr> = clearedCoordinator"
    using clearedCoordinator_eval by simp
  from missing_session_dropped
         [where st = clearedCoordinator and x = exampleExportEnv and tab = "Some 7"
            and d = clickPayload and now = 1700000006000, THEN conjunct2]
       clearedCoordinator_eval m
  have A: "drainQueue 1700000006000
      (snd (handleMessage exampleExportEnv (FromPage (Some 7) (Telemetry clickPayload))
              clearedCoordinator))
     = (restoreState clearedCoordinator)\<lparr> totalEvents :=
         totalEvents (snd (handleMessage exampleExportEnv
            (FromPage (Some 7) (Telemetry clickPayload)) clearedCoordinator)) \<rparr>"
    by simp
  from missing_session_dropped
         [where st = "clearedCoordinator\<lparr> inflight :=
                        Some (PushSegment (segmentOf clickPayload), []) \<rparr>"
            and fn = "PushSegment (segmentOf clickPayload)" and snap = "[]"
            and now = 1700000006000 and ok = True, THEN conjunct1]
  have B: "opFinish 1700000006000 True
     (clearedCoordinator\<lparr> inflight := Some (PushSegment (segmentOf clickPayload), []) \<rparr>)
     = Some clearedCoordinator"
    using i by simp
  from A B m p clearedCoordinator_eval show ?thesis
    by (simp add: r)
qed

subsection \<open>C10: no stored fragment is empty\<close>

text \<open>
  C10: if every fragment the worker holds (stored, queued or in flight) has at least
  one event record, then so does every fragment it holds after any sequence of
  messages and queue steps; and a telemetry message whose four buffers are empty
  enqueues nothing and leaves the store as it is, whatever its terminal flag.
\<close>

theorem stored_fragments_have_data:
  "((\<forall>seg \<in> set (allFragments st). segHasData seg) \<and> exec x acts st = Some st'
      \<longrightarrow> (\<forall>seg \<in> set (allFragments st'). segHasData seg)) \<and>
   (\<not> segHasData (segmentOf d) \<longrightarrow>
      writeQueue (snd (handleMessage x (FromPage tab (Telemetry d)) st)) = writeQueue st \<and>
      inflight (snd (handleMessage x (FromPage tab (Telemetry d)) st)) = inflight st \<and>
      localSessions (snd (handleMessage x (FromPage tab (Telemetry d)) st)) = localSessions st)"
proof (intro conjI impI)
  assume a: "(\<forall>seg \<in> set (allFragments st). segHasData seg) \<and> exec x acts st = Some st'"
  show "\<forall>seg \<in> set (allFragments st'). segHasData seg"
  proof
    fix seg assume "seg \<in> set (allFragments st')"
    with exec_fragments [of x acts st st'] a
    have "seg \<in> set (allFragments st) \<or> (\<exists>a \<in> set acts. seg \<in> set (delivered a))"
      by auto
    with a show "segHasData seg" by (auto dest: delivered_hasData)
  qed
qed (simp_all add: handleMessage_def storeTelemetry_def Let_def)

theorem stored_fragments_have_data_witness:
  "allFragments exampleCoordinator = [] \<and>
   (\<exists>st'. exec exampleExportEnv exampleSchedule exampleCoordinator = Some st' \<and>
          list_all segHasData (allFragments st') \<and>
          map seg_isSegmentEnd (allFragments st') = [False]) \<and>
   \<not> segHasData (segmentOf emptyTerminalPayload) \<and> m_isSegmentEnd emptyTerminalPayload \<and>
   writeQueue (snd (handleMessage exampleExportEnv
      (FromPage (Some 7) (Telemetry emptyTerminalPayload)) exampleCoordinator)) = []"
proof -
  obtain st' where e: "exec exampleExportEnv exampleSchedule exampleCoordinator = Some st'"
    and m: "map seg_isSegmentEnd (allFragments st') = [False]"
    using exampleSchedule_eval by (auto split: option.splits)
  have z: "allFragments exampleCoordinator = []"
    by (simp add: bg_defs)
  have n: "\<not> segHasData (segmentOf emptyTerminalPayload) \<and> m_isSegmentEnd emptyTerminalPayload"
    by (simp add: bg_defs page_defs)
  have q: "writeQueue exampleCoordinator = []"
    by (simp add: exampleCoordinator_def)
  from stored_fragments_have_data
         [where st = exampleCoordinator and x = exampleExportEnv and acts = exampleSchedule
            and st' = st' and d = emptyTerminalPayload and tab = "Some 7"] z e n q
  have "(\<forall>seg \<in> set (allFragments st'). segHasData seg) \<and>
        writeQueue (snd (handleMessage exampleExportEnv
          (FromPage (Some 7) (Telemetry emptyTerminalPayload)) exampleCoordinator)) = []"
    by simp
  with z e m n show ?thesis
    by (auto simp: list_all_iff)
qed

end
